theory Spec2Isabelle
  imports Complex_Main "HOL-Library.Stream"
begin

section \<open>Arrays, element types and shared variables\<close>

text \<open>
  The notebooks compute with NumPy arrays and Theano tensors of floating-point numbers.
  The embedding takes the numbers as reals (no rounding, no overflow, no NaN), a vector
  as a list and a matrix as the list of its rows; the sigmoid of the network, whose range
  depends on the rounding, is computed in 32-bit floating-point arithmetic. An array
  carries its element type as a tag, as \<^verbatim>\<open>ndarray.dtype\<close> does. Where the source
  divides by a count that can be zero the quotient \<^verbatim>\<open>0.0/0.0\<close> (not a number) is the
  value \<open>None\<close>.
\<close>

type_synonym vec = "real list"
type_synonym matrix = "real list list"

datatype error = ValueError | NameError | ZeroDivisionError | AssertionError

datatype dtype = float32 | float64

record 'a ndarray =
  dtype :: dtype
  data :: 'a

text \<open>\<^verbatim>\<open>numpy.asarray\<close> of a list of Python floats: a vector of 64-bit floats.\<close>

definition numpy_asarray :: "real list \<Rightarrow> vec ndarray" where
  "numpy_asarray xs = \<lparr>dtype = float64, data = xs\<rparr>"

definition astype :: "dtype \<Rightarrow> 'a ndarray \<Rightarrow> 'a ndarray" where
  "astype t a = a\<lparr>dtype := t\<rparr>"

text \<open>
  \<^verbatim>\<open>theano.shared(value, name)\<close>: a shared variable takes the element type of the
  array it is made from and keeps it; an update replaces its value only.
\<close>

record 'a shared =
  name :: string
  sdtype :: dtype
  svalue :: 'a

definition theano_shared :: "'a ndarray \<Rightarrow> string \<Rightarrow> 'a shared" where
  "theano_shared a n = \<lparr>name = n, sdtype = dtype a, svalue = data a\<rparr>"

section \<open>The trivial problem (notebook 03)\<close>

definition LEARNING_RATE03 :: real where
  "LEARNING_RATE03 = 6 / 10"

definition NUM_UPDATES03 :: int where
  "NUM_UPDATES03 = 10"

text \<open>\<^verbatim>\<open>W = theano.shared(numpy.asarray([0.2, 0.7]), 'W')\<close>\<close>

definition W03 :: "vec shared" where
  "W03 = theano_shared (numpy_asarray [2 / 10, 7 / 10]) ''W''"

text \<open>\<^verbatim>\<open>y = (x * W).sum()\<close>\<close>

definition y03 :: "vec \<Rightarrow> vec \<Rightarrow> real" where
  "y03 x W = sum_list (map2 (*) x W)"

text \<open>\<^verbatim>\<open>cost = theano.tensor.sqr(target - y)\<close>\<close>

definition cost03 :: "real \<Rightarrow> vec \<Rightarrow> vec \<Rightarrow> real" where
  "cost03 target x W = (target - y03 x W)\<^sup>2"

text \<open>
  \<^verbatim>\<open>gradients = theano.tensor.grad(cost, [W])\<close>: the list, one entry for \<open>W\<close>, of the
  partial derivatives of the cost. Theano differentiates the expression symbolically; the
  definition is the expression it arrives at, and it is proved below to be the derivative
  of \<open>cost03\<close> in every component of \<open>W\<close>.
\<close>

definition gradients03 :: "real \<Rightarrow> vec \<Rightarrow> vec \<Rightarrow> vec list" where
  "gradients03 target x W = [map (\<lambda>xi. - 2 * xi * (target - y03 x W)) x]"

text \<open>\<^verbatim>\<open>W_updated = W - LEARNING_RATE * gradients[0]\<close>\<close>

definition W_updated03 :: "real \<Rightarrow> vec \<Rightarrow> vec \<Rightarrow> vec" where
  "W_updated03 target x W =
     map2 (\<lambda>w g. w - LEARNING_RATE03 * g) W (gradients03 target x W ! 0)"

text \<open>
  \<^verbatim>\<open>f = theano.function([x, target], [y, W], updates=[(W, W_updated)])\<close>: a call returns
  the output and the weights as they are before the update, and leaves the updated
  weights in the shared variable. An input whose length is not that of \<open>W\<close> is refused.
\<close>

definition f03 :: "vec \<Rightarrow> real \<Rightarrow> vec shared \<Rightarrow> error + ((real \<times> vec) \<times> vec shared)" where
  "f03 x target W =
     (if length x \<noteq> length (svalue W) then Inl ValueError
      else Inr ((y03 x (svalue W), svalue W),
                W\<lparr>svalue := W_updated03 target x (svalue W)\<rparr>))"

text \<open>
  The loop \<^verbatim>\<open>for update in range(NUM_UPDATES + 1): y, w = f([1.0, 0.5], 20.0); print y\<close>.
  The state is the shared variable, the printed outputs and the loop variable \<open>w\<close>,
  which is unbound before the first iteration.
\<close>

fun loop03 :: "nat \<Rightarrow> vec shared \<Rightarrow> real list \<Rightarrow> vec option \<Rightarrow>
    error + (real list \<times> vec option \<times> vec shared)" where
  "loop03 0 W outs w = Inr (outs, w, W)"
| "loop03 (Suc n) W outs w =
     (case f03 [1, 1 / 2] 20 W of
        Inl e \<Rightarrow> Inl e
      | Inr ((y, w'), W') \<Rightarrow> loop03 n W' (outs @ [y]) (Some w'))"

text \<open>
  The whole cell: the printed outputs, the weights of the last line
  (\<^verbatim>\<open>w[0]\<close>, \<^verbatim>\<open>w[1]\<close>) and the shared variable at the end.
\<close>

definition main03 :: "error + (real list \<times> vec \<times> vec shared)" where
  "main03 =
     (case loop03 (nat (NUM_UPDATES03 + 1)) W03 [] None of
        Inl e \<Rightarrow> Inl e
      | Inr (outs, None, W) \<Rightarrow> Inl NameError
      | Inr (outs, Some w, W) \<Rightarrow> Inr (outs, w, W))"

section \<open>Music genre prediction (notebook 04)\<close>

definition SAMPLE_WIDTH :: int where
  "SAMPLE_WIDTH = 1200"

definition BATCH_SIZE :: int where
  "BATCH_SIZE = 16"

definition LEARNING_RATE04 :: real where
  "LEARNING_RATE04 = 1 / 100"

definition NUM_UPDATES04 :: int where
  "NUM_UPDATES04 = 5000"

definition EVAL_STEP :: int where
  "EVAL_STEP = 500"

subsection \<open>The data server\<close>

record DataServer =
  self_train :: matrix
  self_test :: matrix
  self_test_targets :: vec

text \<open>
  \<^verbatim>\<open>np.empty\<close> gives an array whose entries are whatever the memory holds; the model
  starts its rows empty. Every row is overwritten before the array is returned, as
  \<open>get_train_sample_Inr\<close> shows. \<^verbatim>\<open>np.zeros\<close> gives zeros.
\<close>

definition np_empty :: "nat \<Rightarrow> matrix" where
  "np_empty n = replicate n []"

definition np_zeros :: "nat \<Rightarrow> vec" where
  "np_zeros n = replicate n 0"

text \<open>Slice assignment \<^verbatim>\<open>a[k:] = v\<close> on a vector.\<close>

definition assign_from :: "nat \<Rightarrow> real \<Rightarrow> vec \<Rightarrow> vec" where
  "assign_from k v a = take k a @ replicate (length a - k) v"

text \<open>
  \<^verbatim>\<open>DataServer.__init__\<close>, given the two arrays of the file. The assertion on
  \<^verbatim>\<open>train.shape[1]\<close> is the check that every row has \<open>SAMPLE_WIDTH\<close> entries.
\<close>

definition DataServer_init :: "matrix \<Rightarrow> matrix \<Rightarrow> error + DataServer" where
  "DataServer_init data_train data_test =
     (if list_ex (\<lambda>r. int (length r) \<noteq> SAMPLE_WIDTH) data_train then Inl AssertionError
      else Inr \<lparr>self_train = data_train, self_test = data_test,
                self_test_targets =
                  assign_from (length data_test div 2) 1 (np_zeros (length data_test))\<rparr>)"

definition get_test :: "DataServer \<Rightarrow> matrix \<times> vec" where
  "get_test self = (self_test self, self_test_targets self)"

text \<open>
  \<^verbatim>\<open>random.randrange(n)\<close>: the generator is a stream of naturals, a draw takes the next
  one into the range; an empty range is refused.
\<close>

definition randrange :: "nat \<Rightarrow> nat stream \<Rightarrow> error + (nat \<times> nat stream)" where
  "randrange n g = (if n = 0 then Inl ValueError else Inr (shd g mod n, stl g))"

text \<open>
  The loop of \<^verbatim>\<open>get_train_sample\<close>: iteration \<open>idx\<close> draws \<open>train_idx\<close>, writes the
  example into row \<open>idx\<close> of \<open>inputs\<close> and, when the index is not in the first half, \<open>1.0\<close>
  into entry \<open>idx\<close> of \<open>targets\<close>. The third argument counts the iterations that remain.
\<close>

fun sample_loop :: "matrix \<Rightarrow> nat \<Rightarrow> nat \<Rightarrow> matrix \<times> vec \<Rightarrow> nat stream \<Rightarrow>
    error + ((matrix \<times> vec) \<times> nat stream)" where
  "sample_loop tr idx 0 (inputs, targets) g = Inr ((inputs, targets), g)"
| "sample_loop tr idx (Suc k) (inputs, targets) g =
     (case randrange (length tr) g of
        Inl e \<Rightarrow> Inl e
      | Inr (train_idx, g') \<Rightarrow>
          sample_loop tr (Suc idx) k
            (inputs[idx := tr ! train_idx],
             if train_idx \<ge> length tr div 2 then targets[idx := 1] else targets) g')"

definition get_train_sample :: "DataServer \<Rightarrow> int \<Rightarrow> nat stream \<Rightarrow>
    error + ((matrix \<times> vec) \<times> nat stream)" where
  "get_train_sample self batch_size g =
     (if batch_size < 0 then Inl ValueError
      else sample_loop (self_train self) 0 (nat batch_size)
             (np_empty (nat batch_size), np_zeros (nat batch_size)) g)"

subsection \<open>Parameters\<close>

text \<open>
  \<^verbatim>\<open>np.random.normal(loc, scale, size)\<close>: NumPy's generator is a stream of standard
  normal deviates; the call takes one for each entry, row by row, and returns
  \<open>loc + scale * z\<close> as 64-bit floats.
\<close>

definition np_random_normal :: "real \<Rightarrow> real \<Rightarrow> nat \<times> nat \<Rightarrow> real stream \<Rightarrow>
    matrix ndarray \<times> real stream" where
  "np_random_normal loc scale shape z =
     (\<lparr>dtype = float64,
       data = map (\<lambda>i. map (\<lambda>j. loc + scale * z !! (i * snd shape + j)) [0..<snd shape])
                [0..<fst shape]\<rparr>,
      sdrop (fst shape * snd shape) z)"

text \<open>
  \<^verbatim>\<open>init_values(shape)\<close>: \<^verbatim>\<open>np.random.normal(scale=0.1, size=shape)\<close>, where \<open>loc\<close> has its
  default \<open>0.0\<close>, then \<^verbatim>\<open>astype(np.float32)\<close>.
\<close>

definition init_values :: "nat \<times> nat \<Rightarrow> real stream \<Rightarrow> matrix ndarray \<times> real stream" where
  "init_values shape z =
     (case np_random_normal 0 (1 / 10) shape z of
        (values, z') \<Rightarrow> (astype float32 values, z'))"

text \<open>
  The six shared variables, made in the order of the source, and the list
  \<^verbatim>\<open>params = [W1, B1, W2, B2, W3, B3]\<close>.
\<close>

definition param_specs :: "((nat \<times> nat) \<times> string) list" where
  "param_specs =
     [((nat SAMPLE_WIDTH, 256), ''W1''), ((1, 256), ''B1''),
      ((256, 64), ''W2''), ((1, 64), ''B2''),
      ((64, 1), ''W3''), ((1, 1), ''B3'')]"

fun make_params :: "((nat \<times> nat) \<times> string) list \<Rightarrow> real stream \<Rightarrow> matrix shared list" where
  "make_params [] z = []"
| "make_params ((shape, n) # rest) z =
     (case init_values shape z of
        (a, z') \<Rightarrow> theano_shared a n # make_params rest z')"

definition params :: "real stream \<Rightarrow> matrix shared list" where
  "params z = make_params param_specs z"

subsection \<open>The network\<close>

text \<open>\<^verbatim>\<open>theano.tensor.dot(a, b)\<close> of two matrices: rows of \<open>a\<close> against columns of \<open>b\<close>.\<close>

definition dot :: "matrix \<Rightarrow> matrix \<Rightarrow> matrix" where
  "dot a b = map (\<lambda>row. map (\<lambda>col. sum_list (map2 (*) row col)) (transpose b)) a"

text \<open>
  \<^verbatim>\<open>y + B\<close> where the first dimension of \<open>B\<close> is broadcastable: the one row of \<open>B\<close> is
  added to every row of \<open>y\<close>.
\<close>

definition add_bias :: "matrix \<Rightarrow> matrix \<Rightarrow> matrix" where
  "add_bias y B = map (\<lambda>row. map2 (+) row (concat (take 1 B))) y"

text \<open>\<^verbatim>\<open>theano.tensor.switch(theano.tensor.gt(y, 0.0), y, 0.0)\<close>, entry by entry.\<close>

definition rectifier :: "real \<Rightarrow> real" where
  "rectifier v = (if v > 0 then v else 0)"

text \<open>
  Rounding to the nearest integer, a tie to the even one: \<^verbatim>\<open>ndarray.round()\<close> rounds
  this way, and so does the default rounding of floating-point arithmetic.
\<close>

definition np_round :: "real \<Rightarrow> real" where
  "np_round v =
     (let f = \<lfloor>v\<rfloor>; d = v - of_int f in
      if d < 1 / 2 then of_int f
      else if d > 1 / 2 then of_int (f + 1)
      else if even f then of_int f else of_int (f + 1))"

text \<open>
  The parameters of the network are \<^verbatim>\<open>float32\<close> arrays, so the sigmoid is computed on
  32-bit floats. A 32-bit float has a significand of 24 bits: around \<open>x\<close> the
  representable numbers are the multiples of \<open>2\<close> to the power \<open>\<lfloor>log 2 \<bar>x\<bar>\<rfloor> - 23\<close>, and of
  \<open>2\<close> to the power \<open>-149\<close> below the smallest normal number.
\<close>

definition quantum32 :: "real \<Rightarrow> real" where
  "quantum32 x = 2 powr of_int (max (\<lfloor>log 2 \<bar>x\<bar>\<rfloor> - 23) (- 149))"

text \<open>
  The result of one 32-bit operation whose exact value is \<open>x\<close>: the nearest representable
  number, a tie to the even significand; \<open>None\<close> is the infinity an overflow gives (from
  \<open>2\<close> to the power \<open>128\<close> on).
\<close>

definition round32 :: "real \<Rightarrow> real option" where
  "round32 x =
     (if x = 0 then Some 0
      else (let r = np_round (x / quantum32 x) * quantum32 x
            in if 2 ^ 128 \<le> \<bar>r\<bar> then None else Some r))"

text \<open>
  \<^verbatim>\<open>theano.tensor.nnet.nnet.sigmoid\<close>, entry by entry: \<^verbatim>\<open>1 / (1 + exp(-v))\<close> in 32-bit
  arithmetic, each of the three operations rounded. An exponential that overflows is
  infinite, and so is the denominator: the quotient is \<open>0.0\<close>. (The denominator is at
  least \<open>1\<close>, so the division itself cannot overflow.) The argument \<open>v\<close> is any finite
  number. An implementation of the function that returns \<open>0.0\<close> or \<open>1.0\<close> at once beyond
  some cut-off, rather than evaluating the formula there, returns those two values on a
  larger set of arguments and no other value.
\<close>

definition sigmoid :: "real \<Rightarrow> real" where
  "sigmoid v =
     (case round32 (exp (- v)) of
        None \<Rightarrow> 0
      | Some e \<Rightarrow>
          (case round32 (1 + e) of
             None \<Rightarrow> 0
           | Some d \<Rightarrow> (case round32 (1 / d) of None \<Rightarrow> 0 | Some s \<Rightarrow> s)))"

text \<open>
  A layer with the rectifier, as the first one: \<^verbatim>\<open>y = dot(x, W1) + B1\<close>, then
  \<^verbatim>\<open>y = switch(gt(y, 0.0), y, 0.0)\<close>.
\<close>

definition rectifier_layer :: "matrix \<Rightarrow> matrix \<Rightarrow> matrix \<Rightarrow> matrix" where
  "rectifier_layer W1 B1 x = map (map rectifier) (add_bias (dot x W1) B1)"

text \<open>
  The network: the first layer, a second layer like it on \<open>W2\<close> and \<open>B2\<close>, then \<^verbatim>\<open>dot(y, W3) + B3\<close>, \<^verbatim>\<open>flatten\<close>
  and \<^verbatim>\<open>sigmoid\<close>.
\<close>

definition y04 :: "matrix \<Rightarrow> matrix \<Rightarrow> matrix \<Rightarrow> matrix \<Rightarrow> matrix \<Rightarrow> matrix \<Rightarrow> matrix \<Rightarrow> vec" where
  "y04 W1 B1 W2 B2 W3 B3 x =
     map sigmoid (concat (add_bias (dot (rectifier_layer W2 B2 (rectifier_layer W1 B1 x)) W3) B3))"

text \<open>
  The mean of a vector, \<^verbatim>\<open>theano.tensor.mean\<close>: the sum over the number of entries,
  which for no entries is \<^verbatim>\<open>0.0/0.0\<close>.
\<close>

definition mean :: "vec \<Rightarrow> real option" where
  "mean v = (if length v = 0 then None else Some (sum_list v / real (length v)))"

text \<open>\<^verbatim>\<open>cost = theano.tensor.mean(theano.tensor.sqr(target - y))\<close>\<close>

definition cost :: "vec \<Rightarrow> vec \<Rightarrow> real option" where
  "cost target y = mean (map2 (\<lambda>t p. (t - p)\<^sup>2) target y)"

text \<open>
  The cost as a function of the values of \<^verbatim>\<open>params\<close> and of the inputs. The program
  has six parameters; the parameter shapes are fixed by the literals of the source.
\<close>

fun cost04 :: "matrix list \<Rightarrow> matrix \<Rightarrow> vec \<Rightarrow> real option" where
  "cost04 [W1, B1, W2, B2, W3, B3] x target = cost target (y04 W1 B1 W2 B2 W3 B3 x)"
| "cost04 ps x target = None"

subsection \<open>Training and testing\<close>

text \<open>
  \<^verbatim>\<open>gradients = theano.tensor.grad(cost, params)\<close>. Theano's differentiation is a
  parameter \<open>grad\<close> of the model: given the cost as a function of the parameter values
  and the inputs, it returns the list of the gradients, one for each parameter, at the
  values it is given.
\<close>

type_synonym grad_engine =
  "(matrix list \<Rightarrow> matrix \<Rightarrow> vec \<Rightarrow> real option) \<Rightarrow> matrix list \<Rightarrow> matrix \<Rightarrow> vec \<Rightarrow> matrix list"

definition gradients :: "grad_engine \<Rightarrow> matrix list \<Rightarrow> matrix \<Rightarrow> vec \<Rightarrow> matrix list" where
  "gradients grad ps x target = grad cost04 ps x target"

text \<open>
  The loop that builds \<open>updates\<close>: for each index and parameter of
  \<^verbatim>\<open>enumerate(params)\<close> the pair of the parameter and the expression
  \<^verbatim>\<open>param - gradients[param_idx] * LEARNING_RATE\<close>. A parameter is named by its place in
  the store, an expression is a function of the parameter values and the inputs.
\<close>

type_synonym expr = "matrix list \<Rightarrow> matrix \<Rightarrow> vec \<Rightarrow> matrix"

definition updated_param :: "grad_engine \<Rightarrow> nat \<Rightarrow> expr" where
  "updated_param grad param_idx ps x target =
     map2 (map2 (\<lambda>p g. p - g * LEARNING_RATE04)) (ps ! param_idx)
       (gradients grad ps x target ! param_idx)"

fun updates_loop :: "grad_engine \<Rightarrow> nat list \<Rightarrow> (nat \<times> expr) list \<Rightarrow> (nat \<times> expr) list" where
  "updates_loop grad [] updates = updates"
| "updates_loop grad (param_idx # rest) updates =
     updates_loop grad rest (updates @ [(param_idx, updated_param grad param_idx)])"

definition updates :: "grad_engine \<Rightarrow> nat \<Rightarrow> (nat \<times> expr) list" where
  "updates grad n = updates_loop grad [0..<n] []"

text \<open>
  A call of a function compiled with \<^verbatim>\<open>updates\<close>: every expression is evaluated at the
  values the shared variables have before the call, then every shared variable is given
  its new value.
\<close>

definition apply_updates :: "(nat \<times> expr) list \<Rightarrow> matrix shared list \<Rightarrow> matrix \<Rightarrow> vec \<Rightarrow>
    matrix shared list" where
  "apply_updates ups store x target =
     fold (\<lambda>(p, v) st. st[p := (st ! p)\<lparr>svalue := v\<rparr>])
       (map (\<lambda>(p, e). (p, e (map svalue store) x target)) ups) store"

text \<open>\<^verbatim>\<open>test = theano.function([x], y)\<close>\<close>

fun test_values :: "matrix list \<Rightarrow> matrix \<Rightarrow> error + vec" where
  "test_values [W1, B1, W2, B2, W3, B3] x =
     (if list_ex (\<lambda>r. length r \<noteq> length W1) x then Inl ValueError
      else Inr (y04 W1 B1 W2 B2 W3 B3 x))"
| "test_values ps x = Inl ValueError"

definition test :: "matrix shared list \<Rightarrow> matrix \<Rightarrow> error + vec" where
  "test store x = test_values (map svalue store) x"

text \<open>
  \<^verbatim>\<open>train = theano.function([x, target], updates=updates)\<close>. The input must have the
  width the first weight matrix expects, and one target for each row.
\<close>

definition train :: "grad_engine \<Rightarrow> matrix shared list \<Rightarrow> matrix \<Rightarrow> vec \<Rightarrow>
    error + matrix shared list" where
  "train grad store x target =
     (case test store x of
        Inl e \<Rightarrow> Inl e
      | Inr y \<Rightarrow>
          (if length target \<noteq> length y then Inl ValueError
           else Inr (apply_updates (updates grad (length store)) store x target)))"

subsection \<open>Evaluation and the training loop\<close>

text \<open>
  \<^verbatim>\<open>ndarray.round()\<close> is \<open>np_round\<close>, defined with the activations: to the nearest
  integer, a tie to the even one.
\<close>

text \<open>\<^verbatim>\<open>ndarray.clip(lo, hi)\<close>, entry by entry.\<close>

definition clip :: "real \<Rightarrow> real \<Rightarrow> real \<Rightarrow> real" where
  "clip lo hi v = min (max v lo) hi"

text \<open>\<^verbatim>\<open>predictions.round().clip(0, 1)\<close>\<close>

definition round_clip :: "vec \<Rightarrow> vec" where
  "round_clip predictions = map (\<lambda>p. clip 0 1 (np_round p)) predictions"

text \<open>\<^verbatim>\<open>((predictions == targets)*1.0).sum()/float(targets.shape[0])\<close>\<close>

definition performance :: "vec \<Rightarrow> vec \<Rightarrow> real option" where
  "performance predictions targets =
     (if length targets = 0 then None
      else Some (sum_list (map2 (\<lambda>p t. (if p = t then 1 else 0) * 1) predictions targets)
                 / real (length targets)))"

text \<open>
  The accuracy as the specification words it, to compare with \<open>performance\<close>: a prediction
  is clamped to \<open>[0, 1]\<close> and then rounded to the nearest integer, and the accuracy is the
  fraction of the predictions for which that equals the label.
\<close>

definition clamp_round :: "real \<Rightarrow> real" where
  "clamp_round p = np_round (clip 0 1 p)"

definition accuracy_spec :: "vec \<Rightarrow> vec \<Rightarrow> real option" where
  "accuracy_spec predictions targets =
     (if length targets = 0 then None
      else Some (real (length (filter (\<lambda>(p, t). clamp_round p = t) (zip predictions targets)))
                 / real (length targets)))"

text \<open>
  The shapes a call of \<open>test\<close> relies on, for an input of width \<open>w\<close>: six parameters, the
  first weight matrix with \<open>w\<close> rows, the last one with one column and the last bias with
  one entry, as the literals of the source make them.
\<close>

definition store_ok :: "nat \<Rightarrow> matrix shared list \<Rightarrow> bool" where
  "store_ok w store \<longleftrightarrow>
     length store = 6 \<and> length (svalue (store ! 0)) = w
     \<and> length (transpose (svalue (store ! 4))) = 1
     \<and> length (concat (take 1 (svalue (store ! 5)))) = 1"

text \<open>
  The state of the run: the shared variables, Python's random generator and the lines
  printed so far, each the update, the total and the percentage.
\<close>

record run_state =
  rs_store :: "matrix shared list"
  rs_gen :: "nat stream"
  rs_out :: "(int \<times> int \<times> real option) list"

text \<open>The body of the branch \<^verbatim>\<open>if (i + 1) % EVAL_STEP == 0\<close>.\<close>

definition evaluation :: "DataServer \<Rightarrow> int \<Rightarrow> int \<Rightarrow> run_state \<Rightarrow> error + run_state" where
  "evaluation ds i num_updates s =
     (case get_test ds of
        (inputs, targets) \<Rightarrow>
          (case test (rs_store s) inputs of
             Inl e \<Rightarrow> Inl e
           | Inr predictions \<Rightarrow>
               Inr (s\<lparr>rs_out := rs_out s @
                      [(i + 1, num_updates,
                        map_option (\<lambda>p. p * 100)
                          (performance (round_clip predictions) targets))]\<rparr>)))"

text \<open>
  The loop \<^verbatim>\<open>for i in xrange(NUM_UPDATES)\<close>; the first argument counts the iterations
  that remain.
\<close>

fun training_loop :: "grad_engine \<Rightarrow> DataServer \<Rightarrow> int \<Rightarrow> int \<Rightarrow> int \<Rightarrow> nat \<Rightarrow> int \<Rightarrow>
    run_state \<Rightarrow> error + run_state" where
  "training_loop grad ds batch_size num_updates eval_step 0 i s = Inr s"
| "training_loop grad ds batch_size num_updates eval_step (Suc k) i s =
     (case get_train_sample ds batch_size (rs_gen s) of
        Inl e \<Rightarrow> Inl e
      | Inr ((inputs, targets), g') \<Rightarrow>
          (case train grad (rs_store s) inputs targets of
             Inl e \<Rightarrow> Inl e
           | Inr store' \<Rightarrow>
               (if eval_step = 0 then Inl ZeroDivisionError
                else if (i + 1) mod eval_step = 0 then
                  (case evaluation ds i num_updates (s\<lparr>rs_store := store', rs_gen := g'\<rparr>) of
                     Inl e \<Rightarrow> Inl e
                   | Inr s' \<Rightarrow>
                       training_loop grad ds batch_size num_updates eval_step k (i + 1) s')
                else training_loop grad ds batch_size num_updates eval_step k (i + 1)
                       (s\<lparr>rs_store := store', rs_gen := g'\<rparr>))))"

definition run04 :: "grad_engine \<Rightarrow> DataServer \<Rightarrow> int \<Rightarrow> int \<Rightarrow> int \<Rightarrow>
    matrix shared list \<Rightarrow> nat stream \<Rightarrow> error + run_state" where
  "run04 grad ds batch_size num_updates eval_step store g =
     training_loop grad ds batch_size num_updates eval_step (nat num_updates) 0
       \<lparr>rs_store = store, rs_gen = g, rs_out = []\<rparr>"

text \<open>The notebook with its constants, on the two arrays of the file.\<close>

definition main04 :: "grad_engine \<Rightarrow> matrix \<Rightarrow> matrix \<Rightarrow> real stream \<Rightarrow> nat stream \<Rightarrow>
    error + run_state" where
  "main04 grad data_train data_test z g =
     (case DataServer_init data_train data_test of
        Inl e \<Rightarrow> Inl e
      | Inr ds \<Rightarrow> run04 grad ds BATCH_SIZE NUM_UPDATES04 EVAL_STEP (params z) g)"

section \<open>The trivial problem: gradient and convergence\<close>

lemma y03_update:
  "length x = length W \<Longrightarrow> i < length W \<Longrightarrow>
   y03 x (W[i := v]) = y03 x W + x ! i * (v - W ! i)"
proof (induction x W arbitrary: i rule: list_induct2)
  case Nil
  then show ?case by simp
next
  case (Cons a xs b ws)
  then show ?case
    by (cases i) (simp_all add: y03_def algebra_simps)
qed

text \<open>
  Claim C3. For the linear model \<open>y = w \<cdot> x\<close> with the loss \<open>(target - y)\<^sup>2\<close>, the
  derivative of the loss in the component \<open>w\<^sub>i\<close>, at any point \<open>(x, target, w)\<close>, is
  what \<open>gradients\<close> holds at index \<open>i\<close>, and that is \<open>-2 * x\<^sub>i * (target - w \<cdot> x)\<close>.
\<close>

theorem gradients03_is_derivative:
  assumes "length x = length W" and "i < length W"
  shows "((\<lambda>v. cost03 target x (W[i := v])) has_field_derivative
            gradients03 target x W ! 0 ! i) (at (W ! i))
         \<and> gradients03 target x W ! 0 ! i = - 2 * x ! i * (target - y03 x W)"
proof -
  have eq: "(\<lambda>v. cost03 target x (W[i := v])) =
        (\<lambda>v. (target - (y03 x W + x ! i * (v - W ! i)))\<^sup>2)"
    using assms by (simp add: cost03_def y03_update)
  have "((\<lambda>v. (target - (y03 x W + x ! i * (v - W ! i)))\<^sup>2) has_field_derivative
          (- 2 * x ! i * (target - y03 x W))) (at (W ! i))"
    by (auto intro!: derivative_eq_intros simp: algebra_simps)
  moreover have "gradients03 target x W ! 0 ! i = - 2 * x ! i * (target - y03 x W)"
    using assms by (simp add: gradients03_def)
  ultimately show ?thesis by (simp add: eq)
qed

theorem gradients03_is_derivative_witness:
  "length [1, 1 / 2 :: real] = length [2 / 10, 7 / 10 :: real]
   \<and> (0::nat) < length [2 / 10, 7 / 10 :: real]
   \<and> ((\<lambda>v. cost03 20 [1, 1 / 2] ([2 / 10, 7 / 10][0 := v])) has_field_derivative
            - (389 / 10)) (at (2 / 10))
   \<and> gradients03 20 [1, 1 / 2] [2 / 10, 7 / 10] ! 0 ! 0 = - (389 / 10)"
  using gradients03_is_derivative [of "[1, 1 / 2]" "[2 / 10, 7 / 10]" 0 20]
  by (simp add: gradients03_def y03_def)

text \<open>
  One call of \<open>f\<close> on the example of the notebook halves the distance of the output from
  the target and changes its sign, whatever the two weights are.
\<close>

lemma f03_halves_error:
  "20 - y03 [1, 1 / 2] (W_updated03 20 [1, 1 / 2] [w1, w2])
     = - (1 / 2) * (20 - y03 [1, 1 / 2] [w1, w2])"
  by (simp add: y03_def W_updated03_def gradients03_def LEARNING_RATE03_def field_simps)

text \<open>
  Claim C1. From \<open>x = [1.0, 0.5]\<close>, target \<open>20.0\<close>, weights \<open>[0.2, 0.7]\<close> and learning rate
  \<open>0.6\<close>, the eleven calls of the update give eleven outputs, each taken before its
  update, whose distance from \<open>20\<close> is \<open>19.45 / 2\<^sup>k\<close> at call \<open>k\<close>; the weights printed
  at the end, and the weights the last update leaves in the shared variable, are within
  one percent of \<open>15.74\<close> and \<open>8.47\<close>.
\<close>

theorem trivial_convergence:
  "(case main03 of
      Inl e \<Rightarrow> False
    | Inr (outs, w, W) \<Rightarrow>
        outs = map (\<lambda>k. 20 - 1945 / 100 * (- 1 / 2) ^ k) [0..<11]
        \<and> map (\<lambda>y. \<bar>20 - y\<bar>) outs = map (\<lambda>k. 1945 / 100 / 2 ^ k) [0..<11]
        \<and> \<bar>w ! 0 - 1574 / 100\<bar> \<le> 1 / 100 * (1574 / 100)
        \<and> \<bar>w ! 1 - 847 / 100\<bar> \<le> 1 / 100 * (847 / 100)
        \<and> \<bar>svalue W ! 0 - 1574 / 100\<bar> \<le> 1 / 100 * (1574 / 100)
        \<and> \<bar>svalue W ! 1 - 847 / 100\<bar> \<le> 1 / 100 * (847 / 100))"
  by (simp add: main03_def NUM_UPDATES03_def W03_def theano_shared_def numpy_asarray_def
      eval_nat_numeral f03_def y03_def W_updated03_def gradients03_def LEARNING_RATE03_def
      upt_rec)

section \<open>Activations\<close>

lemma rectifier_nonneg: "0 \<le> rectifier v"
  by (simp add: rectifier_def)

lemma np_round_ge_int: "of_int n \<le> y \<Longrightarrow> of_int n \<le> np_round y"
proof -
  assume "of_int n \<le> y"
  then have "n \<le> \<lfloor>y\<rfloor>" by (simp add: le_floor_iff)
  then have "(of_int n :: real) \<le> of_int \<lfloor>y\<rfloor>" "(of_int n :: real) \<le> of_int (\<lfloor>y\<rfloor> + 1)"
    by linarith+
  then show ?thesis by (simp add: np_round_def Let_def)
qed

lemma np_round_le_int: "y \<le> of_int n \<Longrightarrow> np_round y \<le> of_int n"
proof (cases "y = of_int n")
  case True
  then show ?thesis by (simp add: np_round_def)
next
  case False
  assume "y \<le> of_int n"
  then have "y < of_int n" using False by simp
  then have "\<lfloor>y\<rfloor> < n" by (simp add: floor_less_iff)
  then have "(of_int \<lfloor>y\<rfloor> :: real) \<le> of_int n" "(of_int (\<lfloor>y\<rfloor> + 1) :: real) \<le> of_int n"
    by linarith+
  then show ?thesis by (simp add: np_round_def Let_def)
qed

lemma np_round_near: "0 \<le> d \<Longrightarrow> d < 1 / 2 \<Longrightarrow> np_round (of_int n + d) = of_int n"
proof -
  assume d: "0 \<le> d" "d < 1 / 2"
  then have "\<lfloor>of_int n + d\<rfloor> = n" by (simp add: floor_eq_iff)
  then show ?thesis using d by (simp add: np_round_def Let_def)
qed

lemma quantum32_pos: "0 < quantum32 x"
  by (simp add: quantum32_def)

lemma two_powr_int_ratio:
  assumes "m \<le> j"
  shows "2 powr of_int j / 2 powr of_int m = (of_int (2 ^ nat (j - m)) :: real)"
proof -
  have "2 powr of_int j / 2 powr of_int m = (2::real) powr (of_int j - of_int m)"
    by (simp add: powr_diff)
  also have "\<dots> = 2 powr real (nat (j - m))" using assms by simp
  also have "\<dots> = 2 ^ nat (j - m)" by (simp add: powr_realpow)
  finally show ?thesis by simp
qed

lemma grid_ge:
  assumes "0 < x" and "2 powr of_int j \<le> x" and "- 149 \<le> j"
  shows "2 powr of_int j \<le> np_round (x / quantum32 x) * quantum32 x"
proof -
  let ?k = "\<lfloor>log 2 \<bar>x\<bar>\<rfloor>"
  let ?m = "max (?k - 23) (- 149)"
  have ax: "\<bar>x\<bar> = x" using assms(1) by simp
  have "of_int j \<le> log 2 x" using assms(1,2) by (simp add: le_log_iff)
  then have jk: "j \<le> ?k" by (simp add: ax le_floor_iff)
  have kx: "2 powr of_int ?k \<le> x"
    unfolding ax using le_log_iff [of 2 x "of_int \<lfloor>log 2 x\<rfloor>"] assms(1) by simp
  have lo: "- 149 \<le> ?k" using assms(3) jk by (rule order_trans)
  have "?k - 23 \<le> ?k" by linarith
  then have mk: "?m \<le> ?k" using lo by (rule max.boundedI)
  have q: "quantum32 x = 2 powr of_int ?m" by (simp add: quantum32_def)
  have "of_int (2 ^ nat (?k - ?m)) = 2 powr of_int ?k / quantum32 x"
    unfolding q using two_powr_int_ratio [OF mk] by simp
  also have "\<dots> \<le> x / quantum32 x"
    using kx quantum32_pos [of x] by (simp add: divide_right_mono)
  finally have "of_int (2 ^ nat (?k - ?m)) \<le> np_round (x / quantum32 x)"
    by (rule np_round_ge_int)
  then have "of_int (2 ^ nat (?k - ?m)) * quantum32 x \<le> np_round (x / quantum32 x) * quantum32 x"
    using quantum32_pos [of x] by (simp add: mult_right_mono)
  moreover have "of_int (2 ^ nat (?k - ?m)) * quantum32 x = 2 powr of_int ?k"
    unfolding q using two_powr_int_ratio [OF mk] by (simp add: field_simps)
  moreover have "2 powr of_int j \<le> (2::real) powr of_int ?k" using jk by simp
  ultimately show ?thesis by linarith
qed

lemma grid_le:
  assumes "0 < x" and "x \<le> 2 powr of_int j" and "- 149 \<le> j"
  shows "np_round (x / quantum32 x) * quantum32 x \<le> 2 powr of_int j"
proof -
  let ?k = "\<lfloor>log 2 \<bar>x\<bar>\<rfloor>"
  let ?m = "max (?k - 23) (- 149)"
  have ax: "\<bar>x\<bar> = x" using assms(1) by simp
  have "log 2 x \<le> of_int j" using assms(1,2) by (simp add: log_le_iff)
  then have kj: "?k \<le> j" by (simp add: ax floor_le_iff)
  have "?k - 23 \<le> j" using kj by linarith
  then have mj: "?m \<le> j" using assms(3) by (rule max.boundedI)
  have q: "quantum32 x = 2 powr of_int ?m" by (simp add: quantum32_def)
  have "x / quantum32 x \<le> 2 powr of_int j / quantum32 x"
    using assms(2) quantum32_pos [of x] by (simp add: divide_right_mono)
  also have "\<dots> = of_int (2 ^ nat (j - ?m))"
    unfolding q using two_powr_int_ratio [OF mj] by simp
  finally have "np_round (x / quantum32 x) \<le> of_int (2 ^ nat (j - ?m))"
    by (rule np_round_le_int)
  then have "np_round (x / quantum32 x) * quantum32 x \<le> of_int (2 ^ nat (j - ?m)) * quantum32 x"
    using quantum32_pos [of x] by (simp add: mult_right_mono)
  moreover have "of_int (2 ^ nat (j - ?m)) * quantum32 x = 2 powr of_int j"
    unfolding q using two_powr_int_ratio [OF mj] by (simp add: field_simps)
  ultimately show ?thesis by linarith
qed

lemma grid_nonneg:
  assumes "0 < x"
  shows "0 \<le> np_round (x / quantum32 x) * quantum32 x"
proof -
  have "of_int 0 \<le> x / quantum32 x" using assms quantum32_pos [of x] by simp
  then have "of_int 0 \<le> np_round (x / quantum32 x)" by (rule np_round_ge_int)
  then show ?thesis using quantum32_pos [of x] by simp
qed

lemma round32_pos:
  assumes "0 < x" and "round32 x = Some r"
  shows "r = np_round (x / quantum32 x) * quantum32 x"
  using assms by (auto simp: round32_def Let_def split: if_splits)

lemma two_powr_0: "(2::real) powr of_int 0 = 1"
  by simp

lemma round32_nonneg: "0 < x \<Longrightarrow> round32 x = Some r \<Longrightarrow> 0 \<le> r"
  using grid_nonneg round32_pos by metis

lemma round32_ge_one:
  assumes "1 \<le> x" and "round32 x = Some r"
  shows "1 \<le> r"
proof -
  have x: "0 < x" using assms(1) by simp
  have "2 powr of_int 0 \<le> np_round (x / quantum32 x) * quantum32 x"
    using x assms(1) by (intro grid_ge) simp_all
  then show ?thesis using round32_pos [OF x assms(2)] by simp
qed

lemma round32_le_one:
  assumes "0 < x" and "x \<le> 1" and "round32 x = Some r"
  shows "r \<le> 1"
proof -
  have "np_round (x / quantum32 x) * quantum32 x \<le> 2 powr of_int 0"
    using assms(1,2) by (intro grid_le) simp_all
  then show ?thesis using round32_pos [OF assms(1,3)] by simp
qed

lemma sigmoid_bounds: "0 \<le> sigmoid v \<and> sigmoid v \<le> 1"
proof (cases "round32 (exp (- v))")
  case None
  then show ?thesis by (simp add: sigmoid_def)
next
  case (Some e)
  have e: "0 \<le> e" using round32_nonneg [OF _ Some] by simp
  show ?thesis
  proof (cases "round32 (1 + e)")
    case None
    then show ?thesis using Some by (simp add: sigmoid_def)
  next
    case d: (Some d)
    have d1: "1 \<le> d" using round32_ge_one [OF _ d] e by simp
    show ?thesis
    proof (cases "round32 (1 / d)")
      case None
      then show ?thesis using Some d by (simp add: sigmoid_def)
    next
      case s: (Some s)
      have p: "0 < 1 / d" "1 / d \<le> 1" using d1 by simp_all
      have "0 \<le> s" using round32_nonneg [OF p(1) s] .
      moreover have "s \<le> 1" using round32_le_one [OF p s] .
      ultimately show ?thesis using Some d s by (simp add: sigmoid_def)
    qed
  qed
qed

lemma two_powr_m25: "(2::real) powr of_int (- 25) = 1 / 2 ^ 25"
  by (simp add: powr_minus_divide powr_realpow [symmetric])

lemma round32_small:
  assumes "0 < x" and "x \<le> 1 / 2 ^ 25"
  shows "\<exists>e. round32 x = Some e \<and> 0 \<le> e \<and> e \<le> 1 / 2 ^ 25"
proof -
  let ?r = "np_round (x / quantum32 x) * quantum32 x"
  have lo: "0 \<le> ?r" using assms(1) by (rule grid_nonneg)
  have "x \<le> 2 powr of_int (- 25)" using assms(2) by (simp only: two_powr_m25)
  then have "?r \<le> 2 powr of_int (- 25)"
    using assms(1) by (intro grid_le) simp_all
  then have hi: "?r \<le> 1 / 2 ^ 25" by (simp only: two_powr_m25)
  then have "\<bar>?r\<bar> < 2 ^ 128" using lo by simp
  then have "round32 x = Some ?r" using assms(1) by (simp add: round32_def Let_def)
  then show ?thesis using lo hi by blast
qed

lemma round32_near_one:
  assumes "0 \<le> e" and "e \<le> 1 / 2 ^ 25"
  shows "round32 (1 + e) = Some 1"
proof -
  let ?y = "1 + e"
  have y: "1 \<le> ?y" "?y < 2" using assms by simp_all
  have "0 \<le> log 2 ?y" "log 2 ?y < 1" using y by (simp_all add: log_less_iff)
  then have k: "\<lfloor>log 2 \<bar>?y\<bar>\<rfloor> = 0" using y by (simp add: floor_eq_iff)
  have q: "quantum32 ?y = 1 / 2 ^ 23"
    unfolding quantum32_def k by (simp add: powr_minus_divide powr_realpow [symmetric])
  have "?y / quantum32 ?y = of_int (2 ^ 23) + e * 2 ^ 23" by (simp add: q algebra_simps)
  moreover have "0 \<le> e * 2 ^ 23" "e * 2 ^ 23 < 1 / 2" using assms by simp_all
  ultimately have "np_round (?y / quantum32 ?y) = of_int (2 ^ 23)"
    by (simp only: np_round_near)
  then have "np_round (?y / quantum32 ?y) * quantum32 ?y = 1" by (simp add: q)
  then show ?thesis using y by (simp add: round32_def Let_def)
qed

lemma sigmoid_one:
  assumes "exp (- v) \<le> 1 / 2 ^ 25"
  shows "sigmoid v = 1"
proof -
  obtain e where e: "round32 (exp (- v)) = Some e" "0 \<le> e" "e \<le> 1 / 2 ^ 25"
    using round32_small [OF _ assms] by auto
  have d: "round32 (1 + e) = Some 1" using e(2,3) by (rule round32_near_one)
  have "round32 (1 / 1) = Some 1" using round32_near_one [of 0] by simp
  then show ?thesis using e(1) d by (simp add: sigmoid_def)
qed

lemma two_powr_128: "(2::real) powr of_int 128 = 2 ^ 128"
  using powr_realpow [of "2::real" 128] by simp

lemma sigmoid_zero:
  assumes "2 ^ 128 \<le> exp (- v)"
  shows "sigmoid v = 0"
proof -
  let ?x = "exp (- v)"
  let ?r = "np_round (?x / quantum32 ?x) * quantum32 ?x"
  have "2 powr of_int 128 \<le> ?r"
    using assms by (intro grid_ge) (simp_all add: two_powr_128)
  then have "2 ^ 128 \<le> \<bar>?r\<bar>" by (simp add: two_powr_128)
  then have "round32 ?x = None" by (simp add: round32_def Let_def)
  then show ?thesis by (simp add: sigmoid_def)
qed

lemma exp_half: "13 / 8 \<le> exp (1 / 2 :: real)"
  using exp_lower_Taylor_quadratic [of "1 / 2 :: real"] by (simp add: power2_eq_square)

lemma exp_halves: "(13 / 8) ^ n \<le> exp (real n / 2)"
proof -
  have "(13 / 8 :: real) ^ n \<le> exp (1 / 2) ^ n"
    using exp_half by (intro power_mono) simp_all
  also have "\<dots> = exp (real n * (1 / 2))" by (rule exp_of_nat_mult [symmetric])
  finally show ?thesis by simp
qed

lemma exp_18: "2 ^ 25 \<le> exp (18 :: real)"
proof -
  have "(2::real) ^ 25 \<le> (13 / 8) ^ 36" by (simp add: power_divide)
  then show ?thesis using exp_halves [of 36] by simp
qed

lemma exp_100: "2 ^ 128 \<le> exp (100 :: real)"
proof -
  have "(2::real) ^ 128 \<le> (13 / 8) ^ 200" by (simp add: power_divide)
  then show ?thesis using exp_halves [of 200] by simp
qed

lemma sigmoid_18: "sigmoid 18 = 1"
proof -
  have "exp (- 18 :: real) \<le> 1 / 2 ^ 25"
    using exp_18 by (simp add: exp_minus field_simps)
  then show ?thesis by (rule sigmoid_one)
qed

lemma sigmoid_m100: "sigmoid (- 100) = 0"
  using exp_100 by (intro sigmoid_zero) simp

lemma round32_pow2:
  assumes "- 149 \<le> j" and "j < 128"
  shows "round32 (2 powr of_int j) = Some (2 powr of_int j)"
proof -
  let ?x = "2 powr of_int j :: real"
  let ?r = "np_round (?x / quantum32 ?x) * quantum32 ?x"
  have x: "0 < ?x" by simp
  have "?x \<le> ?r" using x assms(1) by (intro grid_ge) simp_all
  moreover have "?r \<le> ?x" using x assms(1) by (intro grid_le) simp_all
  ultimately have r: "?r = ?x" by simp
  have "?x < 2 powr of_int 128" using assms(2) by (intro powr_less_mono) simp_all
  then have "\<bar>?r\<bar> < 2 ^ 128" unfolding r two_powr_128 by simp
  then show ?thesis using r by (simp add: round32_def Let_def)
qed

lemma round32_1: "round32 1 = Some 1"
  using round32_pow2 [of 0] by simp

lemma round32_2: "round32 2 = Some 2"
  using round32_pow2 [of 1] by simp

lemma round32_half: "round32 (1 / 2) = Some (1 / 2)"
  using round32_pow2 [of "- 1"] by (simp add: powr_minus_divide)

lemma sigmoid_0: "sigmoid 0 = 1 / 2"
  by (simp add: sigmoid_def round32_1 round32_2 round32_half)

text \<open>
  Claim C8, as stated: every entry the sigmoid returns lies strictly between \<open>0\<close> and \<open>1\<close>.
  In 32-bit arithmetic \<open>1 + exp(-18)\<close> rounds to \<open>1\<close>, and \<open>exp(100)\<close> overflows: the
  sigmoid is exactly \<open>1\<close> at \<open>18\<close> and exactly \<open>0\<close> at \<open>-100\<close>, and the network returns
  exactly \<open>1\<close> and exactly \<open>0\<close> on inputs that bring these arguments to its last layer.
\<close>

theorem sigmoid_saturates:
  "sigmoid 18 = 1 \<and> \<not> sigmoid 18 < 1
   \<and> sigmoid (- 100) = 0 \<and> \<not> 0 < sigmoid (- 100)
   \<and> y04 [[1]] [[0]] [[1]] [[0]] [[1]] [[0]] [[18]] = [1]
   \<and> y04 [[1]] [[0]] [[1]] [[0]] [[- 1]] [[0]] [[100]] = [0]"
  by (simp add: y04_def rectifier_layer_def dot_def add_bias_def rectifier_def
      sigmoid_18 sigmoid_m100)

text \<open>
  Claim C8, amended. Every entry the rectifier returns is at least \<open>0\<close>, and every entry
  the sigmoid returns lies between \<open>0\<close> and \<open>1\<close>, both ends included, on any vector of
  finite numbers; so it is for the output of the first layer and for the output of the
  network.
\<close>

theorem activation_ranges:
  "(\<forall>v \<in> set (map rectifier xs). 0 \<le> v)
   \<and> (\<forall>v \<in> set (map sigmoid xs). 0 \<le> v \<and> v \<le> 1)
   \<and> (\<forall>row \<in> set (rectifier_layer W1 B1 x). \<forall>v \<in> set row. 0 \<le> v)
   \<and> (\<forall>v \<in> set (y04 W1 B1 W2 B2 W3 B3 x). 0 \<le> v \<and> v \<le> 1)"
  by (auto simp: rectifier_layer_def y04_def rectifier_nonneg sigmoid_bounds)

theorem activation_ranges_witness:
  "0 \<le> rectifier (- 3) \<and> 0 \<le> rectifier 2
   \<and> 0 \<le> sigmoid (- 3) \<and> sigmoid (- 3) \<le> 1 \<and> 0 \<le> sigmoid 2 \<and> sigmoid 2 \<le> 1
   \<and> rectifier_layer [[1], [- 1]] [[0]] [[2, 5]] = [[0]]
   \<and> y04 [[1], [- 1]] [[0]] [[1]] [[0]] [[1]] [[0]] [[2, 5]] = [1 / 2]"
  using activation_ranges
    [of "[- 3, 2]" "[[1], [- 1]]" "[[0]]" "[[2, 5]]" "[[1]]" "[[0]]" "[[1]]" "[[0]]"]
  by (simp add: y04_def rectifier_layer_def dot_def add_bias_def rectifier_def sigmoid_0)

section \<open>Rounding, clipping and the accuracy\<close>

lemma np_round_int: "np_round (of_int k) = of_int k"
  by (simp add: np_round_def)

lemma np_round_le0:
  assumes "v \<le> 0"
  shows "np_round v \<le> 0"
proof -
  have f: "\<lfloor>v\<rfloor> \<le> 0" using assms by (simp add: floor_le_iff)
  show ?thesis
  proof (cases "\<lfloor>v\<rfloor> = 0")
    case True
    then have "v = 0" using assms by linarith
    then show ?thesis by (simp add: np_round_def)
  next
    case False
    then have "\<lfloor>v\<rfloor> + 1 \<le> 0" using f by linarith
    then have "(of_int (\<lfloor>v\<rfloor> + 1) :: real) \<le> 0" by linarith
    moreover have "(of_int \<lfloor>v\<rfloor> :: real) \<le> 0" using f by linarith
    ultimately show ?thesis by (simp add: np_round_def Let_def)
  qed
qed

lemma np_round_ge1:
  assumes "1 \<le> v"
  shows "1 \<le> np_round v"
proof -
  have f: "1 \<le> \<lfloor>v\<rfloor>" using assms by (simp add: le_floor_iff)
  then have "(1::real) \<le> of_int \<lfloor>v\<rfloor>" by linarith
  moreover have "(1::real) \<le> of_int (\<lfloor>v\<rfloor> + 1)" using f by linarith
  ultimately show ?thesis by (simp add: np_round_def Let_def)
qed

lemma np_round_unit:
  assumes "0 \<le> v" and "v \<le> 1"
  shows "np_round v = 0 \<or> np_round v = 1"
proof (cases "v = 1")
  case True
  then show ?thesis using np_round_int [of 1] by simp
next
  case False
  then have "\<lfloor>v\<rfloor> = 0" using assms by (simp add: floor_eq_iff)
  then show ?thesis by (simp add: np_round_def Let_def)
qed

text \<open>Rounding and clipping to \<open>[0, 1]\<close> give the same value in either order.\<close>

lemma clip_round_commute: "clip 0 1 (np_round v) = np_round (clip 0 1 v)"
proof -
  consider "v \<le> 0" | "1 \<le> v" | "0 < v" "v < 1" by linarith
  then show ?thesis
  proof cases
    case 1
    then have "clip 0 1 v = 0" by (simp add: clip_def)
    moreover have "clip 0 1 (np_round v) = 0"
      using np_round_le0 [OF 1] by (simp add: clip_def)
    ultimately show ?thesis using np_round_int [of 0] by simp
  next
    case 2
    then have "clip 0 1 v = 1" by (simp add: clip_def)
    moreover have "clip 0 1 (np_round v) = 1"
      using np_round_ge1 [OF 2] by (simp add: clip_def)
    ultimately show ?thesis using np_round_int [of 1] by simp
  next
    case 3
    then have "clip 0 1 v = v" by (simp add: clip_def)
    moreover have "clip 0 1 (np_round v) = np_round v"
      using np_round_unit [of v] 3 by (auto simp: clip_def)
    ultimately show ?thesis by simp
  qed
qed

lemma clip_round_binary: "clip 0 1 (np_round v) = 0 \<or> clip 0 1 (np_round v) = 1"
proof -
  have "0 \<le> clip 0 1 v" "clip 0 1 v \<le> 1" by (simp_all add: clip_def)
  then show ?thesis using np_round_unit clip_round_commute by metis
qed

lemma sum_list_indicator:
  "sum_list (map (\<lambda>x. if P x then (1::real) else 0) xs) = real (length (filter P xs))"
  by (induction xs) simp_all

lemma performance_round_clip:
  "performance (round_clip predictions) targets = accuracy_spec predictions targets"
proof -
  have z: "zip (map (\<lambda>p. clip 0 1 (np_round p)) predictions) targets
        = map (\<lambda>(p, t). (clip 0 1 (np_round p), t)) (zip predictions targets)"
    by (simp add: zip_map1)
  have "sum_list (map2 (\<lambda>p t. (if p = t then 1 else 0) * 1)
            (map (\<lambda>p. clip 0 1 (np_round p)) predictions) targets)
      = sum_list (map (\<lambda>pt. if (case pt of (p, t) \<Rightarrow> clamp_round p = t) then (1::real) else 0)
            (zip predictions targets))"
    unfolding z by (simp add: clamp_round_def clip_round_commute case_prod_unfold comp_def)
  then show ?thesis
    by (simp add: performance_def accuracy_spec_def round_clip_def sum_list_indicator)
qed

text \<open>
  Claim C6. The accuracy the loop computes, with the predictions rounded and then clipped,
  is the fraction of the predictions whose value, clamped to \<open>[0, 1]\<close> and then rounded,
  equals the label: the two orders give the same accuracy on every vector of predictions.
  An evaluation that succeeds reports a hundred times that fraction, for the predictions of
  \<open>test\<close> on the held-out set and its labels.
\<close>

theorem accuracy_order_irrelevant:
  "performance (round_clip predictions) targets = accuracy_spec predictions targets
   \<and> (case evaluation ds i n s of
        Inl e \<Rightarrow> test (rs_store s) (self_test ds) = Inl e
      | Inr s' \<Rightarrow>
          (\<exists>predictions. test (rs_store s) (self_test ds) = Inr predictions
             \<and> s' = s\<lparr>rs_out := rs_out s @
                      [(i + 1, n,
                        map_option (\<lambda>a. a * 100)
                          (accuracy_spec predictions (self_test_targets ds)))]\<rparr>))"
  by (simp add: performance_round_clip evaluation_def get_test_def split: sum.splits)

lemma matches_le_length:
  "sum_list (map2 (\<lambda>p t. (if p = t then (1::real) else 0) * 1) ps ts) \<le> real (length ts)"
proof (induction ps arbitrary: ts)
  case Nil
  then show ?case by simp
next
  case (Cons p ps)
  then show ?case
  proof (cases ts)
    case Nil
    then show ?thesis by simp
  next
    case (Cons t ts')
    then show ?thesis using Cons.IH [of ts'] by simp
  qed
qed

lemma matches_nonneg:
  "0 \<le> sum_list (map2 (\<lambda>p t. (if p = t then (1::real) else 0) * 1) ps ts)"
  by (rule sum_list_nonneg) auto

text \<open>
  Claim C10, as stated: the accuracy always lies between \<open>0\<close> and \<open>1\<close>. It does not when
  there is no held-out example: the count of matches and the number of examples are both
  zero, and the quotient is not a number.
\<close>

theorem accuracy_nan_on_empty:
  "performance (round_clip []) [] = None"
  by (simp add: performance_def)

text \<open>
  Claim C10, amended. Rounding and then clipping leaves only the values \<open>0\<close> and \<open>1\<close>, and
  when there is at least one held-out example the accuracy lies between \<open>0\<close> and \<open>1\<close> and
  the percentage between \<open>0\<close> and \<open>100\<close>.
\<close>

theorem accuracy_range:
  assumes "targets \<noteq> []"
  shows "(\<forall>p \<in> set (round_clip predictions). p = 0 \<or> p = 1)
     \<and> (\<exists>a. performance (round_clip predictions) targets = Some a
           \<and> 0 \<le> a \<and> a \<le> 1 \<and> 0 \<le> a * 100 \<and> a * 100 \<le> 100)"
proof -
  let ?m = "sum_list (map2 (\<lambda>p t. (if p = t then (1::real) else 0) * 1)
              (round_clip predictions) targets)"
  have n: "0 < real (length targets)" using assms by simp
  have "0 \<le> ?m" by (rule matches_nonneg)
  then have "0 \<le> ?m / real (length targets)" by (rule divide_nonneg_nonneg) simp
  moreover have "?m / real (length targets) \<le> 1"
    using matches_le_length [of "round_clip predictions" targets] n by simp
  moreover have "performance (round_clip predictions) targets = Some (?m / real (length targets))"
    using assms by (simp add: performance_def)
  moreover have "\<forall>p \<in> set (round_clip predictions). p = 0 \<or> p = 1"
    using clip_round_binary by (auto simp: round_clip_def)
  ultimately show ?thesis by simp
qed

theorem accuracy_range_witness:
  "[0, 1, 1 :: real] \<noteq> []
   \<and> round_clip [3 / 10, 1 / 2, 17 / 10] = [0, 0, 1]
   \<and> performance (round_clip [3 / 10, 1 / 2, 17 / 10]) [0, 1, 1] = Some (2 / 3)
   \<and> (\<exists>a. performance (round_clip [3 / 10, 1 / 2, 17 / 10]) [0, 1, 1] = Some a
           \<and> 0 \<le> a \<and> a \<le> 1 \<and> 0 \<le> a * 100 \<and> a * 100 \<le> 100)"
  using accuracy_range [of "[0, 1, 1]" "[3 / 10, 1 / 2, 17 / 10]"]
  by (simp add: round_clip_def np_round_def clip_def performance_def)

section \<open>The loss\<close>

lemma sum_list_map2_nth:
  "length ys = length xs \<Longrightarrow>
   sum_list (map2 f xs ys) = (\<Sum>i<length xs. f (xs ! i) (ys ! i))"
  by (simp add: sum_list_sum_nth atLeast0LessThan)

text \<open>
  Claim C4, as stated: on any batch in which every prediction equals its target the loss is
  exactly \<open>0\<close>. On the batch of no examples every prediction equals its target, and the
  mean is \<open>0.0/0.0\<close>, which is not \<open>0\<close>.
\<close>

theorem cost_nan_on_empty:
  "cost [] [] = None \<and> cost [] [] \<noteq> Some 0"
  by (simp add: cost_def mean_def)

text \<open>
  Claim C4, amended. On a batch of at least one example the loss is the mean of the
  squared differences between target and prediction, and it is exactly \<open>0\<close> when every
  prediction equals its target; the cost of the network is that loss on the output of the
  network, and the cost of the trivial problem is \<open>0\<close> when the output equals the target.
\<close>

theorem cost_is_mean_squared_error:
  assumes "target \<noteq> []" and "length y = length target"
  shows "cost target y = Some ((\<Sum>i<length target. (target ! i - y ! i)\<^sup>2) / real (length target))
     \<and> cost target target = Some 0
     \<and> cost04 [W1, B1, W2, B2, W3, B3] x target = cost target (y04 W1 B1 W2 B2 W3 B3 x)
     \<and> cost03 (y03 x3 W) x3 W = 0"
proof -
  have "cost target y = Some ((\<Sum>i<length target. (target ! i - y ! i)\<^sup>2) / real (length target))"
    using assms by (simp add: cost_def mean_def sum_list_map2_nth)
  moreover have "sum_list (map2 (\<lambda>t p. (t - p)\<^sup>2) target target) = 0"
    by (simp add: sum_list_map2_nth)
  then have "cost target target = Some 0"
    using assms by (simp add: cost_def mean_def)
  ultimately show ?thesis by (simp add: cost03_def)
qed

theorem cost_is_mean_squared_error_witness:
  "[0, 1 :: real] \<noteq> [] \<and> length [1 / 2, 1 :: real] = length [0, 1 :: real]
   \<and> cost [0, 1] [1 / 2, 1] = Some (1 / 8)
   \<and> cost [0, 1] [0, 1] = Some 0"
  using cost_is_mean_squared_error [of "[0, 1]" "[1 / 2, 1]"]
  by (simp add: lessThan_Suc eval_nat_numeral)

section \<open>The update rule\<close>

lemma updates_loop_append:
  "updates_loop grad idxs acc = acc @ map (\<lambda>i. (i, updated_param grad i)) idxs"
  by (induction idxs arbitrary: acc) simp_all

lemma updates_eq: "updates grad n = map (\<lambda>i. (i, updated_param grad i)) [0..<n]"
  by (simp add: updates_def updates_loop_append)

lemma fold_assign:
  "n \<le> length store \<Longrightarrow>
   fold (\<lambda>(p, v) st. st[p := (st ! p)\<lparr>svalue := v\<rparr>]) (map (\<lambda>i. (i, V i)) [0..<n]) store
     = map (\<lambda>i. if i < n then (store ! i)\<lparr>svalue := V i\<rparr> else store ! i) [0..<length store]"
proof (induction n)
  case 0
  then show ?case by (simp add: map_nth)
next
  case (Suc n)
  then have n: "n < length store" by simp
  have "fold (\<lambda>(p, v) st. st[p := (st ! p)\<lparr>svalue := v\<rparr>]) (map (\<lambda>i. (i, V i)) [0..<Suc n]) store
      = (map (\<lambda>i. if i < n then (store ! i)\<lparr>svalue := V i\<rparr> else store ! i) [0..<length store])
          [n := (store ! n)\<lparr>svalue := V n\<rparr>]"
    using Suc n by simp
  also have "\<dots> = map (\<lambda>i. if i < Suc n then (store ! i)\<lparr>svalue := V i\<rparr> else store ! i)
                     [0..<length store]"
    using n by (intro nth_equalityI) (auto simp: nth_list_update less_Suc_eq)
  finally show ?case .
qed

lemma apply_updates_eq:
  "apply_updates (updates grad (length store)) store x target
     = map (\<lambda>i. (store ! i)\<lparr>svalue := updated_param grad i (map svalue store) x target\<rparr>)
         [0..<length store]"
proof -
  have "map (\<lambda>(p, e). (p, e (map svalue store) x target)) (updates grad (length store))
      = map (\<lambda>i. (i, updated_param grad i (map svalue store) x target)) [0..<length store]"
    by (simp add: updates_eq)
  then show ?thesis
    using fold_assign [of "length store" store "\<lambda>i. updated_param grad i (map svalue store) x target"]
    by (simp add: apply_updates_def)
qed

lemma train_Inr:
  assumes "train grad store x target = Inr store'"
  shows "store' = map (\<lambda>i. (store ! i)\<lparr>svalue := updated_param grad i (map svalue store) x target\<rparr>)
                    [0..<length store]"
  using assms by (auto simp: train_def apply_updates_eq split: sum.splits if_splits)

text \<open>
  Claim C2. One call of \<open>train\<close> that succeeds replaces every parameter \<open>i\<close> of the store
  by the parameter minus the learning rate times gradient \<open>i\<close>, entry by entry; every
  gradient is taken at the values the parameters have before the call, and the new store
  holds all the new values at once. The call of \<open>f\<close> in the trivial problem does the same
  for \<open>W\<close>, and returns the output and the weights from before the update.
\<close>

theorem update_rule:
  assumes "train grad store x target = Inr store'"
    and "i < length store"
    and "r < length (svalue (store ! i))"
    and "r < length (gradients grad (map svalue store) x target ! i)"
    and "c < length (svalue (store ! i) ! r)"
    and "c < length (gradients grad (map svalue store) x target ! i ! r)"
  shows "length store' = length store
     \<and> store' ! i = (store ! i)\<lparr>svalue :=
          map2 (map2 (\<lambda>p g. p - g * LEARNING_RATE04)) (svalue (store ! i))
            (gradients grad (map svalue store) x target ! i)\<rparr>
     \<and> svalue (store' ! i) ! r ! c
          = svalue (store ! i) ! r ! c
            - LEARNING_RATE04 * (gradients grad (map svalue store) x target ! i ! r ! c)
     \<and> (case f03 x3 t3 W of
          Inl e \<Rightarrow> length x3 \<noteq> length (svalue W)
        | Inr ((y, w), W') \<Rightarrow>
            y = y03 x3 (svalue W) \<and> w = svalue W
            \<and> svalue W' = map2 (\<lambda>w g. w - LEARNING_RATE03 * g) (svalue W)
                             (gradients03 t3 x3 (svalue W) ! 0))"
proof -
  note s = train_Inr [OF assms(1)]
  have len: "length store' = length store" by (simp add: s)
  have at_i: "store' ! i = (store ! i)\<lparr>svalue :=
          map2 (map2 (\<lambda>p g. p - g * LEARNING_RATE04)) (svalue (store ! i))
            (gradients grad (map svalue store) x target ! i)\<rparr>"
    using assms(2) by (simp add: s updated_param_def)
  have "svalue (store' ! i) ! r ! c
          = svalue (store ! i) ! r ! c
            - LEARNING_RATE04 * (gradients grad (map svalue store) x target ! i ! r ! c)"
    using assms(3-6) by (simp add: at_i)
  moreover have "(case f03 x3 t3 W of
          Inl e \<Rightarrow> length x3 \<noteq> length (svalue W)
        | Inr ((y, w), W') \<Rightarrow>
            y = y03 x3 (svalue W) \<and> w = svalue W
            \<and> svalue W' = map2 (\<lambda>w g. w - LEARNING_RATE03 * g) (svalue W)
                             (gradients03 t3 x3 (svalue W) ! 0))"
    by (simp add: f03_def W_updated03_def)
  ultimately show ?thesis using len at_i by simp
qed

text \<open>A call of \<open>train\<close> on six one-entry parameters, with an engine that returns the
  parameters themselves as their gradients.\<close>

lemma tiny_train:
  "train (\<lambda>c ps x t. ps)
     [\<lparr>name = ''W1'', sdtype = float32, svalue = [[1]]\<rparr>,
      \<lparr>name = ''B1'', sdtype = float32, svalue = [[2]]\<rparr>,
      \<lparr>name = ''W2'', sdtype = float32, svalue = [[3]]\<rparr>,
      \<lparr>name = ''B2'', sdtype = float32, svalue = [[4]]\<rparr>,
      \<lparr>name = ''W3'', sdtype = float32, svalue = [[5]]\<rparr>,
      \<lparr>name = ''B3'', sdtype = float32, svalue = [[6]]\<rparr>] [[1]] [0]
   = Inr
     [\<lparr>name = ''W1'', sdtype = float32, svalue = [[99 / 100]]\<rparr>,
      \<lparr>name = ''B1'', sdtype = float32, svalue = [[198 / 100]]\<rparr>,
      \<lparr>name = ''W2'', sdtype = float32, svalue = [[297 / 100]]\<rparr>,
      \<lparr>name = ''B2'', sdtype = float32, svalue = [[396 / 100]]\<rparr>,
      \<lparr>name = ''W3'', sdtype = float32, svalue = [[495 / 100]]\<rparr>,
      \<lparr>name = ''B3'', sdtype = float32, svalue = [[594 / 100]]\<rparr>]"
  by (simp add: train_def test_def y04_def rectifier_layer_def dot_def add_bias_def
      apply_updates_def updates_def upt_rec updated_param_def gradients_def LEARNING_RATE04_def)

theorem update_rule_witness:
  "train (\<lambda>c ps x t. ps)
     [\<lparr>name = ''W1'', sdtype = float32, svalue = [[1]]\<rparr>,
      \<lparr>name = ''B1'', sdtype = float32, svalue = [[2]]\<rparr>,
      \<lparr>name = ''W2'', sdtype = float32, svalue = [[3]]\<rparr>,
      \<lparr>name = ''B2'', sdtype = float32, svalue = [[4]]\<rparr>,
      \<lparr>name = ''W3'', sdtype = float32, svalue = [[5]]\<rparr>,
      \<lparr>name = ''B3'', sdtype = float32, svalue = [[6]]\<rparr>] [[1]] [0]
   = Inr
     [\<lparr>name = ''W1'', sdtype = float32, svalue = [[99 / 100]]\<rparr>,
      \<lparr>name = ''B1'', sdtype = float32, svalue = [[198 / 100]]\<rparr>,
      \<lparr>name = ''W2'', sdtype = float32, svalue = [[297 / 100]]\<rparr>,
      \<lparr>name = ''B2'', sdtype = float32, svalue = [[396 / 100]]\<rparr>,
      \<lparr>name = ''W3'', sdtype = float32, svalue = [[495 / 100]]\<rparr>,
      \<lparr>name = ''B3'', sdtype = float32, svalue = [[594 / 100]]\<rparr>]
   \<and> (297 / 100 :: real) = 3 - LEARNING_RATE04 * 3
   \<and> f03 [1, 1 / 2] 20 W03
       = Inr ((11 / 20, [2 / 10, 7 / 10]), W03\<lparr>svalue := [2354 / 100, 1237 / 100]\<rparr>)"
  using update_rule [OF tiny_train, where i = 2 and r = 0 and c = 0
      and ?x3.0 = "[1, 1 / 2]" and ?t3.0 = 20 and W = W03]
  by (simp add: tiny_train gradients_def f03_def W03_def theano_shared_def numpy_asarray_def
      y03_def W_updated03_def gradients03_def LEARNING_RATE03_def)

section \<open>The data server\<close>

lemma sample_loop_from:
  assumes "tr \<noteq> []"
  shows "length inputs = idx + k \<Longrightarrow> length targets = idx + k \<Longrightarrow>
     drop idx targets = replicate k 0 \<Longrightarrow>
     sample_loop tr idx k (inputs, targets) g =
       Inr ((take idx inputs @ map (\<lambda>i. tr ! i) (map (\<lambda>r. r mod length tr) (stake k g)),
             take idx targets @ map (\<lambda>i. if i < length tr div 2 then 0 else 1)
               (map (\<lambda>r. r mod length tr) (stake k g))),
            sdrop k g)"
proof (induction k arbitrary: idx inputs targets g)
  case 0
  then show ?case by simp
next
  case (Suc k)
  let ?i = "shd g mod length tr"
  let ?inputs = "inputs[idx := tr ! ?i]"
  let ?targets = "if ?i \<ge> length tr div 2 then targets[idx := 1] else targets"
  have idx: "idx < length inputs" "idx < length targets" using Suc.prems by simp_all
  have zero: "targets ! idx = 0"
  proof -
    have "targets ! idx = drop idx targets ! 0" using idx by simp
    then show ?thesis using Suc.prems(3) by simp
  qed
  have rest: "drop (Suc idx) targets = replicate k 0"
  proof -
    have "drop (Suc idx) targets = drop 1 (drop idx targets)" by simp
    then show ?thesis using Suc.prems(3) by simp
  qed
  have 1: "length ?inputs = Suc idx + k" using Suc.prems by simp
  have 2: "length ?targets = Suc idx + k" using Suc.prems by simp
  have 3: "drop (Suc idx) ?targets = replicate k 0" using rest by simp
  have ti: "take (Suc idx) ?inputs = take idx inputs @ [tr ! ?i]"
    using idx by (simp add: take_Suc_conv_app_nth)
  have tt: "take (Suc idx) ?targets
      = take idx targets @ [if ?i < length tr div 2 then 0 else 1]"
    using idx zero by (simp add: take_Suc_conv_app_nth not_le)
  have "sample_loop tr idx (Suc k) (inputs, targets) g
      = sample_loop tr (Suc idx) k (?inputs, ?targets) (stl g)"
    using assms by (simp add: randrange_def)
  also have "\<dots> = Inr ((take (Suc idx) ?inputs
                 @ map (\<lambda>i. tr ! i) (map (\<lambda>r. r mod length tr) (stake k (stl g))),
               take (Suc idx) ?targets
                 @ map (\<lambda>i. if i < length tr div 2 then 0 else 1)
                     (map (\<lambda>r. r mod length tr) (stake k (stl g)))),
              sdrop k (stl g))"
    by (rule Suc.IH [OF 1 2 3])
  finally show ?case unfolding ti tt by simp
qed

lemma get_train_sample_Inr:
  assumes "0 \<le> batch_size" and "self_train self \<noteq> []"
  shows "get_train_sample self batch_size g =
       Inr ((map (\<lambda>i. self_train self ! i)
               (map (\<lambda>r. r mod length (self_train self)) (stake (nat batch_size) g)),
             map (\<lambda>i. if i < length (self_train self) div 2 then 0 else 1)
               (map (\<lambda>r. r mod length (self_train self)) (stake (nat batch_size) g))),
            sdrop (nat batch_size) g)"
  using assms sample_loop_from [OF assms(2), of "np_empty (nat batch_size)" 0 "nat batch_size"
      "np_zeros (nat batch_size)" g]
  by (simp add: get_train_sample_def np_empty_def np_zeros_def)

lemma test_targets_halves:
  "assign_from (n div 2) 1 (np_zeros n) = map (\<lambda>i. if i < n div 2 then 0 else 1) [0..<n]"
  by (intro nth_equalityI) (auto simp: assign_from_def np_zeros_def nth_append)

text \<open>
  Claim C5. For a batch size that is not negative and a training collection that is not
  empty, \<open>get_train_sample\<close> makes one draw for each of the \<open>batch_size\<close> places, each
  over the whole collection whatever was drawn before, so with replacement; the example at
  a place is the row of the train set at the index drawn, and its label is \<open>0\<close> when the
  index is in the first half of the collection and \<open>1\<close> otherwise. \<open>get_test\<close> takes no
  generator: it returns the whole test set, with the labels \<open>__init__\<close> made by the same
  rule. (That a draw is uniform is what \<^verbatim>\<open>random.randrange\<close> promises of its generator;
  the model has the generator as a stream.)
\<close>

theorem sampler_draws_and_labels:
  assumes "0 \<le> batch_size" and "self_train self \<noteq> []"
  shows "get_train_sample self batch_size g =
       Inr ((map (\<lambda>i. self_train self ! i)
               (map (\<lambda>r. r mod length (self_train self)) (stake (nat batch_size) g)),
             map (\<lambda>i. if i < length (self_train self) div 2 then 0 else 1)
               (map (\<lambda>r. r mod length (self_train self)) (stake (nat batch_size) g))),
            sdrop (nat batch_size) g)
     \<and> length (map (\<lambda>r. r mod length (self_train self)) (stake (nat batch_size) g))
         = nat batch_size
     \<and> list_all (\<lambda>i. i < length (self_train self))
         (map (\<lambda>r. r mod length (self_train self)) (stake (nat batch_size) g))
     \<and> get_test self = (self_test self, self_test_targets self)
     \<and> (case DataServer_init data_train data_test of
          Inl e \<Rightarrow> list_ex (\<lambda>r. int (length r) \<noteq> SAMPLE_WIDTH) data_train
        | Inr ds \<Rightarrow>
            get_test ds =
              (data_test,
               map (\<lambda>i. if i < length data_test div 2 then 0 else 1) [0..<length data_test]))"
proof -
  have "list_all (\<lambda>i. i < length (self_train self))
         (map (\<lambda>r. r mod length (self_train self)) (stake (nat batch_size) g))"
    using assms(2) by (simp add: list_all_iff)
  then show ?thesis
    using assms
    by (simp add: get_train_sample_Inr get_test_def DataServer_init_def test_targets_halves)
qed

text \<open>A run of the sampler on four examples, and of \<open>__init__\<close> on three.\<close>

lemma tiny_sample:
  "get_train_sample
        \<lparr>self_train = [[10], [20], [30], [40]], self_test = [], self_test_targets = []\<rparr>
        3 (5 ## 2 ## 7 ## sconst 0)
      = Inr (([[20], [30], [40]], [0, 1, 1]), sconst 0)"
proof -
  have n: "nat 3 = Suc (Suc (Suc 0))" by simp
  show ?thesis
    unfolding get_train_sample_def n np_empty_def np_zeros_def
    by (simp add: randrange_def)
qed

lemma tiny_init:
  "DataServer_init [] [[1], [2], [3]]
      = Inr \<lparr>self_train = [], self_test = [[1], [2], [3]], self_test_targets = [0, 1, 1]\<rparr>"
  by (simp add: DataServer_init_def assign_from_def np_zeros_def)

theorem sampler_draws_and_labels_witness:
  "(0::int) \<le> 3 \<and> [[10], [20], [30], [40 :: real]] \<noteq> []
   \<and> get_train_sample
        \<lparr>self_train = [[10], [20], [30], [40]], self_test = [], self_test_targets = []\<rparr>
        3 (5 ## 2 ## 7 ## sconst 0)
      = Inr (([[20], [30], [40]], [0, 1, 1]), sconst 0)
   \<and> DataServer_init [] [[1], [2], [3]]
      = Inr \<lparr>self_train = [], self_test = [[1], [2], [3]], self_test_targets = [0, 1, 1]\<rparr>
   \<and> get_test \<lparr>self_train = [], self_test = [[1], [2], [3]], self_test_targets = [0, 1, 1]\<rparr>
      = ([[1], [2], [3]], [0, 1, 1])"
proof -
  have h1: "(0::int) \<le> 3" by simp
  have h2: "self_train \<lparr>self_train = [[10], [20], [30], [40]], self_test = [],
              self_test_targets = []\<rparr> \<noteq> []" by simp
  note t = sampler_draws_and_labels [OF h1 h2, of "5 ## 2 ## 7 ## sconst 0" "[]" "[[1], [2], [3]]"]
  note t5 = t [THEN conjunct2, THEN conjunct2, THEN conjunct2, THEN conjunct2]
  from t5 have "get_test \<lparr>self_train = [], self_test = [[1], [2], [3]],
      self_test_targets = [0, 1, 1]\<rparr> = ([[1], [2], [3]], [0, 1, 1])"
    by (simp add: tiny_init upt_rec)
  then show ?thesis by (simp add: tiny_sample tiny_init)
qed

text \<open>Every list of indices of the collection, repetitions and all, is the outcome of some
  generator: no draw excludes an index drawn before.\<close>

lemma every_index_list_is_drawn:
  assumes "list_all (\<lambda>i. i < length (self_train self)) idxs"
  shows "\<exists>g. get_train_sample self (int (length idxs)) g =
       Inr ((map (\<lambda>i. self_train self ! i) idxs,
             map (\<lambda>i. if i < length (self_train self) div 2 then 0 else 1) idxs),
            sdrop (length idxs) g)"
proof (cases "self_train self = []")
  case True
  then have "idxs = []" using assms by (cases idxs) simp_all
  then show ?thesis by (simp add: get_train_sample_def np_empty_def np_zeros_def)
next
  case False
  have "map (\<lambda>r. r mod length (self_train self)) idxs = idxs"
    using assms by (induction idxs) simp_all
  then have "get_train_sample self (int (length idxs)) (idxs @- sconst 0) =
       Inr ((map (\<lambda>i. self_train self ! i) idxs,
             map (\<lambda>i. if i < length (self_train self) div 2 then 0 else 1) idxs),
            sdrop (length idxs) (idxs @- sconst 0))"
    using False by (simp add: get_train_sample_Inr stake_shift del: sdrop_shift)
  then show ?thesis by blast
qed

section \<open>The training loop\<close>

lemma div_succ_multiple: "0 < (k::int) \<Longrightarrow> (n + 1) mod k = 0 \<Longrightarrow> (n + 1) div k = n div k + 1"
proof -
  assume k: "0 < k" and m: "(n + 1) mod k = 0"
  have "n + 1 = k * ((n + 1) div k)" using m by (simp add: mod_eq_0_iff_dvd)
  then have "n = k * ((n + 1) div k - 1) + (k - 1)" by (simp add: algebra_simps)
  then have "n div k = (n + 1) div k - 1"
    using k by (intro int_div_pos_eq [where r = "k - 1"]) simp_all
  then show ?thesis by simp
qed

lemma div_succ_not_multiple: "0 < (k::int) \<Longrightarrow> (n + 1) mod k \<noteq> 0 \<Longrightarrow> (n + 1) div k = n div k"
proof -
  assume k: "0 < k" and m: "(n + 1) mod k \<noteq> 0"
  have r: "0 \<le> n mod k" "n mod k < k" using k by simp_all
  have "n mod k + 1 \<noteq> k"
  proof
    assume e: "n mod k + 1 = k"
    have "n + 1 = k * (n div k) + (n mod k + 1)" by simp
    then have "n + 1 = k * (n div k) + k" unfolding e .
    then have "n + 1 = k * (n div k + 1)" by (simp add: algebra_simps)
    then have "(n + 1) mod k = 0" by (metis mod_mult_self1_is_0)
    then show False using m by simp
  qed
  then have lt: "n mod k + 1 < k" using r by linarith
  have "n + 1 = k * (n div k) + (n mod k + 1)" by simp
  then show ?thesis using r lt by (intro int_div_pos_eq [where r = "n mod k + 1"]) simp_all
qed

lemma multiples_upto:
  assumes "0 < (k::int)"
  shows "0 \<le> n \<Longrightarrow> filter (\<lambda>j. j mod k = 0) [1..n] = map (\<lambda>j. j * k) [1..n div k]"
proof (induction n rule: int_ge_induct)
  case base
  then show ?case by simp
next
  case (step n)
  have up: "[1..n + 1] = [1..n] @ [n + 1]" using step.hyps by (simp add: upto_rec2)
  have q: "0 \<le> n div k" using step.hyps assms by (simp add: pos_imp_zdiv_nonneg_iff)
  show ?case
  proof (cases "(n + 1) mod k = 0")
    case True
    have d: "(n + 1) div k = n div k + 1" using div_succ_multiple [OF assms True] .
    have e: "(n div k + 1) * k = n + 1"
      using True d by (metis mod_eq_0_iff_dvd dvd_div_mult_self)
    have "[1..n div k + 1] = [1..n div k] @ [n div k + 1]" using q by (simp add: upto_rec2)
    then show ?thesis using step True d e unfolding up by simp
  next
    case False
    have "(n + 1) div k = n div k" using div_succ_not_multiple [OF assms False] .
    then show ?thesis using step False unfolding up by simp
  qed
qed

lemma count_multiples:
  assumes "0 < (k::int)" and "0 \<le> n"
  shows "length (filter (\<lambda>j. j mod k = 0) [1..n]) = nat (n div k)"
  using assms by (simp add: multiples_upto)

lemma evaluation_Inr:
  assumes "evaluation ds i n s = Inr s'"
  shows "rs_store s' = rs_store s \<and> rs_gen s' = rs_gen s
     \<and> map fst (rs_out s') = map fst (rs_out s) @ [i + 1]"
  using assms by (auto simp: evaluation_def split: prod.splits sum.splits)

lemma loop_steps:
  assumes "training_loop grad ds b n k rem i s = Inr s'" and "0 < k"
  shows "map fst (rs_out s') = map fst (rs_out s) @ filter (\<lambda>j. j mod k = 0) [i + 1..i + int rem]"
  using assms
proof (induction rem arbitrary: i s)
  case 0
  then show ?case by simp
next
  case (Suc rem)
  have up: "[i + 1..i + int (Suc rem)] = (i + 1) # [i + 1 + 1..i + 1 + int rem]"
    by (simp add: upto_rec1 add.commute add.left_commute)
  from Suc.prems obtain inputs targets g' store' where
    st: "get_train_sample ds b (rs_gen s) = Inr ((inputs, targets), g')"
        "train grad (rs_store s) inputs targets = Inr store'"
    by (auto split: sum.splits prod.splits if_splits)
  show ?case
  proof (cases "(i + 1) mod k = 0")
    case True
    with Suc.prems st obtain s1 where
      ev: "evaluation ds i n (s\<lparr>rs_store := store', rs_gen := g'\<rparr>) = Inr s1"
      and rest: "training_loop grad ds b n k rem (i + 1) s1 = Inr s'"
      by (auto split: sum.splits)
    from evaluation_Inr [OF ev] have "map fst (rs_out s1) = map fst (rs_out s) @ [i + 1]"
      by simp
    with Suc.IH [OF rest \<open>0 < k\<close>] True show ?thesis
      unfolding up by simp
  next
    case False
    with Suc.prems st have
      rest: "training_loop grad ds b n k rem (i + 1) (s\<lparr>rs_store := store', rs_gen := g'\<rparr>) = Inr s'"
      by (auto split: sum.splits)
    with Suc.IH [OF rest \<open>0 < k\<close>] False show ?thesis
      unfolding up by simp
  qed
qed

lemma loop_store_independent:
  assumes "training_loop grad ds b n1 k1 rem i1 s1 = Inr t1"
    and "training_loop grad ds b n2 k2 rem i2 s2 = Inr t2"
    and "rs_store s1 = rs_store s2" and "rs_gen s1 = rs_gen s2"
  shows "rs_store t1 = rs_store t2 \<and> rs_gen t1 = rs_gen t2"
  using assms
proof (induction rem arbitrary: i1 i2 s1 s2)
  case 0
  then show ?case by simp
next
  case (Suc rem)
  from Suc.prems(1) obtain inputs targets g' store' where
    st: "get_train_sample ds b (rs_gen s1) = Inr ((inputs, targets), g')"
        "train grad (rs_store s1) inputs targets = Inr store'"
    by (auto split: sum.splits prod.splits if_splits)
  from Suc.prems(1) st obtain u1 where
    u1: "training_loop grad ds b n1 k1 rem (i1 + 1) u1 = Inr t1"
        "rs_store u1 = store'" "rs_gen u1 = g'"
    by (auto split: sum.splits if_splits dest: evaluation_Inr)
  from Suc.prems(2-4) st obtain u2 where
    u2: "training_loop grad ds b n2 k2 rem (i2 + 1) u2 = Inr t2"
        "rs_store u2 = store'" "rs_gen u2 = g'"
    by (auto split: sum.splits if_splits dest: evaluation_Inr)
  show ?case
    using Suc.IH [OF u1(1) u2(1)] u1 u2 by simp
qed

text \<open>
  Claim C7. In a run of \<open>num_updates\<close> updates that completes, with an evaluation interval
  \<open>eval_step\<close> above zero, the updates after which an evaluation is reported are exactly
  the multiples of \<open>eval_step\<close> from \<open>1\<close> to \<open>num_updates\<close>, each once and in order, which
  makes \<open>num_updates div eval_step\<close> evaluations. An evaluation leaves the parameters and
  the generator as they are, and the parameters at the end of the run are the same
  whatever the interval is.
\<close>

theorem evaluation_schedule:
  assumes "run04 grad ds batch_size num_updates eval_step store g = Inr s"
    and "0 < eval_step"
  shows "map fst (rs_out s) = filter (\<lambda>j. j mod eval_step = 0) [1..num_updates]
     \<and> map fst (rs_out s) = map (\<lambda>j. j * eval_step) [1..num_updates div eval_step]
     \<and> length (rs_out s) = nat (num_updates div eval_step)
     \<and> (run04 grad ds batch_size num_updates eval_step' store g = Inr s'
          \<longrightarrow> rs_store s' = rs_store s \<and> rs_gen s' = rs_gen s)
     \<and> (evaluation ds i n t = Inr t' \<longrightarrow> rs_store t' = rs_store t \<and> rs_gen t' = rs_gen t)"
proof -
  have steps: "map fst (rs_out s) = filter (\<lambda>j. j mod eval_step = 0) [1..int (nat num_updates)]"
    using loop_steps [OF assms(1) [unfolded run04_def] assms(2)] by simp
  have range: "[1..int (nat num_updates)] = [1..num_updates]"
    by (cases "0 \<le> num_updates") simp_all
  have filt: "map fst (rs_out s) = filter (\<lambda>j. j mod eval_step = 0) [1..num_updates]"
    using steps range by simp
  have mult: "filter (\<lambda>j. j mod eval_step = 0) [1..num_updates]
      = map (\<lambda>j. j * eval_step) [1..num_updates div eval_step]"
  proof (cases "0 \<le> num_updates")
    case True
    then show ?thesis using multiples_upto [OF assms(2)] by simp
  next
    case False
    then have "num_updates div eval_step < 0"
      using assms(2) by (simp add: pos_imp_zdiv_neg_iff)
    then show ?thesis using False by simp
  qed
  have len: "length (rs_out s) = nat (num_updates div eval_step)"
  proof -
    have "length (rs_out s) = length (map fst (rs_out s))" by simp
    also have "\<dots> = length (map (\<lambda>j. j * eval_step) [1..num_updates div eval_step])"
      using filt mult by simp
    finally show ?thesis by simp
  qed
  have indep: "run04 grad ds batch_size num_updates eval_step' store g = Inr s'
          \<longrightarrow> rs_store s' = rs_store s \<and> rs_gen s' = rs_gen s"
    using loop_store_independent [OF _ assms(1) [unfolded run04_def]]
    by (auto simp: run04_def)
  have frame: "evaluation ds i n t = Inr t' \<longrightarrow> rs_store t' = rs_store t \<and> rs_gen t' = rs_gen t"
    using evaluation_Inr by blast
  show ?thesis using filt mult len indep frame by simp
qed

text \<open>A run of five updates with an evaluation after every second one, on examples of width
  one.\<close>

lemma tiny_run:
  "\<exists>s. run04 (\<lambda>c ps x t. ps)
         \<lparr>self_train = [[1], [2]], self_test = [[1], [3]], self_test_targets = [0, 1]\<rparr> 1 5 2
         [\<lparr>name = ''W1'', sdtype = float32, svalue = [[1]]\<rparr>,
          \<lparr>name = ''B1'', sdtype = float32, svalue = [[2]]\<rparr>,
          \<lparr>name = ''W2'', sdtype = float32, svalue = [[3]]\<rparr>,
          \<lparr>name = ''B2'', sdtype = float32, svalue = [[4]]\<rparr>,
          \<lparr>name = ''W3'', sdtype = float32, svalue = [[5]]\<rparr>,
          \<lparr>name = ''B3'', sdtype = float32, svalue = [[6]]\<rparr>] (sconst 1) = Inr s"
proof -
  have n: "nat 5 = Suc (Suc (Suc (Suc (Suc 0))))" by simp
  show ?thesis
    unfolding run04_def n
    by (simp add: get_train_sample_def np_empty_def np_zeros_def randrange_def train_def
        test_def evaluation_def get_test_def y04_def rectifier_layer_def dot_def add_bias_def
        apply_updates_def updates_def upt_rec updated_param_def gradients_def)
qed

theorem evaluation_schedule_witness:
  "\<exists>s. run04 (\<lambda>c ps x t. ps)
         \<lparr>self_train = [[1], [2]], self_test = [[1], [3]], self_test_targets = [0, 1]\<rparr> 1 5 2
         [\<lparr>name = ''W1'', sdtype = float32, svalue = [[1]]\<rparr>,
          \<lparr>name = ''B1'', sdtype = float32, svalue = [[2]]\<rparr>,
          \<lparr>name = ''W2'', sdtype = float32, svalue = [[3]]\<rparr>,
          \<lparr>name = ''B2'', sdtype = float32, svalue = [[4]]\<rparr>,
          \<lparr>name = ''W3'', sdtype = float32, svalue = [[5]]\<rparr>,
          \<lparr>name = ''B3'', sdtype = float32, svalue = [[6]]\<rparr>] (sconst 1) = Inr s
       \<and> (0::int) < 2
       \<and> map fst (rs_out s) = [2, 4]
       \<and> length (rs_out s) = 2"
proof -
  obtain s where r: "run04 (\<lambda>c ps x t. ps)
         \<lparr>self_train = [[1], [2]], self_test = [[1], [3]], self_test_targets = [0, 1]\<rparr> 1 5 2
         [\<lparr>name = ''W1'', sdtype = float32, svalue = [[1]]\<rparr>,
          \<lparr>name = ''B1'', sdtype = float32, svalue = [[2]]\<rparr>,
          \<lparr>name = ''W2'', sdtype = float32, svalue = [[3]]\<rparr>,
          \<lparr>name = ''B2'', sdtype = float32, svalue = [[4]]\<rparr>,
          \<lparr>name = ''W3'', sdtype = float32, svalue = [[5]]\<rparr>,
          \<lparr>name = ''B3'', sdtype = float32, svalue = [[6]]\<rparr>] (sconst 1) = Inr s"
    using tiny_run by blast
  have k: "(0::int) < 2" by simp
  note t = evaluation_schedule [OF r k]
  have u: "[1..2::int] = [1, 2]" by (simp add: upto_rec1)
  have "map fst (rs_out s) = [2, 4]"
    using t [THEN conjunct2, THEN conjunct1] by (simp add: u)
  moreover have "length (rs_out s) = 2"
    using t [THEN conjunct2, THEN conjunct2, THEN conjunct1] by simp
  ultimately show ?thesis using r by auto
qed

section \<open>The run completes\<close>

text \<open>
  The loop raises nothing when the batch size is not negative, the train set is not
  empty, every example has the width the first weight matrix expects, the interval is not
  zero and the gradients have the shapes of their parameters, as the gradients of Theano
  have. The parameters the notebook makes have these shapes, so on such data the notebook
  runs to its end, and reports after the updates 500, 1000, ... 5000.
\<close>

lemma list6: "length xs = 6 \<Longrightarrow> xs = [xs ! 0, xs ! 1, xs ! 2, xs ! 3, xs ! 4, xs ! 5]"
  by (rule nth_equalityI) (auto simp: nth_Cons' less_Suc_eq eval_nat_numeral)

lemma length_concat_singletons:
  "list_all (\<lambda>r. length (f r) = 1) xs \<Longrightarrow> length (concat (map f xs)) = length xs"
  by (induction xs) simp_all

lemma length_y04:
  assumes "length (transpose W3) = 1" and "length (concat (take 1 B3)) = 1"
  shows "length (y04 W1 B1 W2 B2 W3 B3 x) = length x"
proof -
  let ?h = "rectifier_layer W2 B2 (rectifier_layer W1 B1 x)"
  have rows: "add_bias (dot ?h W3) B3
      = map (\<lambda>row. map2 (+) (map (\<lambda>col. sum_list (map2 (*) row col)) (transpose W3))
                (concat (take 1 B3))) ?h"
    by (simp add: add_bias_def dot_def)
  have "length (concat (add_bias (dot ?h W3) B3)) = length ?h"
    unfolding rows using assms by (intro length_concat_singletons) (simp add: list_all_iff)
  moreover have "length ?h = length x" by (simp add: rectifier_layer_def add_bias_def dot_def)
  ultimately show ?thesis by (simp add: y04_def)
qed

lemma foldr_max_column:
  "list_all (\<lambda>r. length r = 1) xs \<Longrightarrow>
   foldr (\<lambda>r. max (length r)) xs 0 = (if xs = [] then 0 else 1)"
proof (induction xs)
  case Nil
  then show ?case by simp
next
  case (Cons a xs)
  then show ?case by (cases "xs = []") simp_all
qed

lemma length_transpose_column:
  "xs \<noteq> [] \<Longrightarrow> list_all (\<lambda>r. length r = 1) xs \<Longrightarrow> length (transpose xs) = 1"
  by (simp add: length_transpose foldr_max_column)

lemma foldr_max_shape:
  "map length A = map length B \<Longrightarrow>
   foldr (\<lambda>r. max (length r)) A 0 = foldr (\<lambda>r. max (length r)) B 0"
proof (induction A arbitrary: B)
  case Nil
  then show ?case by simp
next
  case (Cons a A)
  then show ?case by (cases B) auto
qed

lemma length_transpose_shape:
  "map length A = map length B \<Longrightarrow> length (transpose A) = length (transpose B)"
  using foldr_max_shape [of A B] by (simp add: length_transpose)

lemma shape_map2:
  "map length B = map length A \<Longrightarrow> map length (map2 (map2 f) A B) = map length A"
proof (induction A arbitrary: B)
  case Nil
  then show ?case by simp
next
  case (Cons a A)
  then show ?case by (cases B) auto
qed

lemma test_ok:
  assumes "store_ok w store" and "list_all (\<lambda>r. length r = w) x"
  shows "\<exists>y. test store x = Inr y \<and> length y = length x"
proof -
  let ?v = "map svalue store"
  have six: "?v = [?v ! 0, ?v ! 1, ?v ! 2, ?v ! 3, ?v ! 4, ?v ! 5]"
    using assms(1) by (intro list6) (simp add: store_ok_def)
  have w: "length (?v ! 0) = w" "length (transpose (?v ! 4)) = 1"
    "length (concat (take 1 (?v ! 5))) = 1"
    using assms(1) by (simp_all add: store_ok_def)
  have nox: "\<not> list_ex (\<lambda>r. length r \<noteq> length (?v ! 0)) x"
    using assms(2) w(1) by (simp add: list_all_iff list_ex_iff)
  have "test store x = Inr (y04 (?v ! 0) (?v ! 1) (?v ! 2) (?v ! 3) (?v ! 4) (?v ! 5) x)"
    unfolding test_def by (subst six) (simp add: nox)
  then show ?thesis using length_y04 [OF w(2) w(3)] by simp
qed

lemma train_ok:
  assumes "store_ok w store" and "list_all (\<lambda>r. length r = w) x"
    and "length target = length x"
    and contract: "\<And>ps x t. map (map length) (grad cost04 ps x t) = map (map length) ps"
  shows "\<exists>store'. train grad store x target = Inr store' \<and> store_ok w store'"
proof -
  let ?v = "map svalue store"
  let ?G = "gradients grad ?v x target"
  obtain y where y: "test store x = Inr y" "length y = length x"
    using test_ok [OF assms(1,2)] by blast
  let ?s = "apply_updates (updates grad (length store)) store x target"
  have tr: "train grad store x target = Inr ?s"
    using y assms(3) by (simp add: train_def)
  note s = train_Inr [OF tr]
  have len: "length store = 6" using assms(1) by (simp add: store_ok_def)
  have G: "map (map length) ?G = map (map length) ?v"
    using contract by (simp add: gradients_def)
  then have lenG: "length ?G = length store"
    by (metis length_map)
  have shape: "map length (svalue (?s ! i)) = map length (svalue (store ! i))"
    if "i < length store" for i
  proof -
    have "map length (?G ! i) = map length (?v ! i)"
      using that lenG G by (metis length_map nth_map)
    then have "map length (updated_param grad i ?v x target) = map length (?v ! i)"
      unfolding updated_param_def by (rule shape_map2)
    then show ?thesis using that by (subst s) simp
  qed
  have l0: "length (svalue (?s ! 0)) = length (svalue (store ! 0))"
    using shape [of 0] len by (metis length_map zero_less_numeral)
  have l4: "length (transpose (svalue (?s ! 4))) = length (transpose (svalue (store ! 4)))"
    using shape [of 4] len by (intro length_transpose_shape) simp
  have "map length (take 1 (svalue (?s ! 5))) = map length (take 1 (svalue (store ! 5)))"
    using shape [of 5] len by (simp add: take_map [symmetric])
  then have l5: "length (concat (take 1 (svalue (?s ! 5))))
      = length (concat (take 1 (svalue (store ! 5))))"
    by (simp add: length_concat)
  have "length ?s = 6" using len by (subst s) simp
  then have "store_ok w ?s"
    using assms(1) l0 l4 l5 by (simp add: store_ok_def)
  then show ?thesis using tr by blast
qed

lemma sample_ok:
  assumes "0 \<le> b" and "self_train ds \<noteq> []" and "list_all (\<lambda>r. length r = w) (self_train ds)"
  shows "\<exists>inputs targets g'. get_train_sample ds b g = Inr ((inputs, targets), g')
     \<and> list_all (\<lambda>r. length r = w) inputs \<and> length targets = length inputs"
proof -
  let ?idxs = "map (\<lambda>r. r mod length (self_train ds)) (stake (nat b) g)"
  have "get_train_sample ds b g =
       Inr ((map (\<lambda>i. self_train ds ! i) ?idxs,
             map (\<lambda>i. if i < length (self_train ds) div 2 then 0 else 1) ?idxs),
            sdrop (nat b) g)"
    using assms(1,2) by (simp add: get_train_sample_Inr)
  moreover have "list_all (\<lambda>r. length r = w) (map (\<lambda>i. self_train ds ! i) ?idxs)"
    using assms(2,3) by (simp add: list_all_iff)
  ultimately show ?thesis by simp
qed

lemma evaluation_ok:
  assumes "store_ok w (rs_store s)" and "list_all (\<lambda>r. length r = w) (self_test ds)"
  shows "\<exists>s'. evaluation ds i n s = Inr s' \<and> rs_store s' = rs_store s \<and> rs_gen s' = rs_gen s"
proof -
  obtain y where "test (rs_store s) (self_test ds) = Inr y"
    using test_ok [OF assms] by blast
  then show ?thesis by (simp add: evaluation_def get_test_def)
qed

lemma loop_completes:
  assumes "0 \<le> b" and "self_train ds \<noteq> []"
    and "list_all (\<lambda>r. length r = w) (self_train ds)"
    and "list_all (\<lambda>r. length r = w) (self_test ds)"
    and "k \<noteq> 0"
    and contract: "\<And>ps x t. map (map length) (grad cost04 ps x t) = map (map length) ps"
  shows "store_ok w (rs_store s) \<Longrightarrow> \<exists>s'. training_loop grad ds b n k rem i s = Inr s'"
proof (induction rem arbitrary: i s)
  case 0
  then show ?case by simp
next
  case (Suc rem)
  obtain inputs targets g' where
    smp: "get_train_sample ds b (rs_gen s) = Inr ((inputs, targets), g')"
      "list_all (\<lambda>r. length r = w) inputs" "length targets = length inputs"
    using sample_ok [OF assms(1-3)] by blast
  obtain store' where
    tr: "train grad (rs_store s) inputs targets = Inr store'" "store_ok w store'"
    using train_ok [where grad = grad, OF Suc.prems smp(2,3) contract] by blast
  let ?u = "s\<lparr>rs_store := store', rs_gen := g'\<rparr>"
  have ok: "store_ok w (rs_store ?u)" using tr(2) by simp
  show ?case
  proof (cases "(i + 1) mod k = 0")
    case True
    obtain s1 where ev: "evaluation ds i n ?u = Inr s1" "rs_store s1 = rs_store ?u"
      using evaluation_ok [OF ok assms(4)] by blast
    then have "store_ok w (rs_store s1)" using ok by simp
    from Suc.IH [OF this] obtain s' where
      "training_loop grad ds b n k rem (i + 1) s1 = Inr s'" by blast
    then show ?thesis using smp(1) tr(1) True ev(1) assms(5) by simp
  next
    case False
    from Suc.IH [OF ok] obtain s' where
      "training_loop grad ds b n k rem (i + 1) ?u = Inr s'" by blast
    then show ?thesis using smp(1) tr(1) False assms(5) by simp
  qed
qed

lemma init_values_rows: "length (data (fst (init_values (r, c) z))) = r"
  by (simp add: init_values_def np_random_normal_def astype_def)

lemma init_values_cols:
  "list_all (\<lambda>row. length row = c) (data (fst (init_values (r, c) z)))"
  by (simp add: init_values_def np_random_normal_def astype_def list_all_iff)

lemma svalue_theano_shared: "svalue (theano_shared a n) = data a"
  by (simp add: theano_shared_def)

lemma params_store_ok: "store_ok (nat SAMPLE_WIDTH) (params z)"
proof -
  have ps: "\<exists>z1 z2 z3 z4 z5 z6. params z =
      [theano_shared (fst (init_values (nat SAMPLE_WIDTH, 256) z1)) ''W1'',
       theano_shared (fst (init_values (1, 256) z2)) ''B1'',
       theano_shared (fst (init_values (256, 64) z3)) ''W2'',
       theano_shared (fst (init_values (1, 64) z4)) ''B2'',
       theano_shared (fst (init_values (64, 1) z5)) ''W3'',
       theano_shared (fst (init_values (1, 1) z6)) ''B3'']"
    by (simp add: params_def param_specs_def case_prod_unfold) blast
  then obtain z1 z2 z3 z4 z5 z6 where p: "params z =
      [theano_shared (fst (init_values (nat SAMPLE_WIDTH, 256) z1)) ''W1'',
       theano_shared (fst (init_values (1, 256) z2)) ''B1'',
       theano_shared (fst (init_values (256, 64) z3)) ''W2'',
       theano_shared (fst (init_values (1, 64) z4)) ''B2'',
       theano_shared (fst (init_values (64, 1) z5)) ''W3'',
       theano_shared (fst (init_values (1, 1) z6)) ''B3'']"
    by blast
  let ?W3 = "data (fst (init_values (64, 1) z5))"
  let ?B3 = "data (fst (init_values (1, 1) z6))"
  have "?W3 \<noteq> []" using init_values_rows [of 64 1 z5] by auto
  then have t: "length (transpose ?W3) = 1"
    using init_values_cols [of 1 64 z5] by (rule length_transpose_column)
  obtain row where b: "?B3 = [row]"
    using init_values_rows [of 1 1 z6] by (auto simp: length_Suc_conv)
  have "length row = 1" using init_values_cols [of 1 1 z6] b by simp
  then have c: "length (concat (take 1 ?B3)) = 1" using b by simp
  show ?thesis
    unfolding store_ok_def p
    using t c by (simp add: svalue_theano_shared init_values_rows)
qed

lemma main04_completes:
  assumes "data_train \<noteq> []"
    and "list_all (\<lambda>r. int (length r) = SAMPLE_WIDTH) data_train"
    and "list_all (\<lambda>r. int (length r) = SAMPLE_WIDTH) data_test"
    and contract: "\<And>ps x t. map (map length) (grad cost04 ps x t) = map (map length) ps"
  shows "\<exists>s. main04 grad data_train data_test z g = Inr s
     \<and> map fst (rs_out s) = [500, 1000, 1500, 2000, 2500, 3000, 3500, 4000, 4500, 5000]"
proof -
  let ?ds = "\<lparr>self_train = data_train, self_test = data_test,
              self_test_targets =
                assign_from (length data_test div 2) 1 (np_zeros (length data_test))\<rparr>"
  have init: "DataServer_init data_train data_test = Inr ?ds"
    using assms(2) by (simp add: DataServer_init_def list_all_iff list_ex_iff)
  have w1: "list_all (\<lambda>r. length r = nat SAMPLE_WIDTH) (self_train ?ds)"
    using assms(2) by (auto simp: list_all_iff)
  have w2: "list_all (\<lambda>r. length r = nat SAMPLE_WIDTH) (self_test ?ds)"
    using assms(3) by (auto simp: list_all_iff)
  have ne: "self_train ?ds \<noteq> []" using assms(1) by simp
  have b: "0 \<le> BATCH_SIZE" by (simp add: BATCH_SIZE_def)
  have k: "EVAL_STEP \<noteq> 0" "0 < EVAL_STEP" by (simp_all add: EVAL_STEP_def)
  have ok: "store_ok (nat SAMPLE_WIDTH)
      (rs_store \<lparr>rs_store = params z, rs_gen = g, rs_out = []\<rparr>)"
    using params_store_ok by simp
  obtain s where run: "training_loop grad ?ds BATCH_SIZE NUM_UPDATES04 EVAL_STEP
      (nat NUM_UPDATES04) 0 \<lparr>rs_store = params z, rs_gen = g, rs_out = []\<rparr> = Inr s"
    using loop_completes [where grad = grad, OF b ne w1 w2 k(1) contract ok] by blast
  have "map fst (rs_out s) = filter (\<lambda>j. j mod EVAL_STEP = 0) [1..NUM_UPDATES04]"
    using loop_steps [OF run k(2)] by (simp add: NUM_UPDATES04_def)
  also have "\<dots> = map (\<lambda>j. j * 500) [1..10]"
    using multiples_upto [of EVAL_STEP NUM_UPDATES04]
    by (simp add: EVAL_STEP_def NUM_UPDATES04_def)
  also have "\<dots> = [500, 1000, 1500, 2000, 2500, 3000, 3500, 4000, 4500, 5000]"
    by (simp add: upto_rec1)
  finally have "map fst (rs_out s)
      = [500, 1000, 1500, 2000, 2500, 3000, 3500, 4000, 4500, 5000]" .
  then show ?thesis using run init by (simp add: main04_def run04_def)
qed

section \<open>Element types of the parameters\<close>

lemma make_params_float32:
  "list_all (\<lambda>p. sdtype p = float32) (make_params specs z)
   \<and> map name (make_params specs z) = map snd specs"
  by (induction specs z rule: make_params.induct)
     (simp_all add: init_values_def np_random_normal_def astype_def theano_shared_def)

lemma train_keeps_dtypes:
  assumes "train grad store x target = Inr store'"
  shows "map sdtype store' = map sdtype store \<and> map name store' = map name store"
proof -
  note s = train_Inr [OF assms]
  have "map sdtype store' = map sdtype store"
    by (rule nth_equalityI) (simp_all add: s)
  moreover have "map name store' = map name store"
    by (rule nth_equalityI) (simp_all add: s)
  ultimately show ?thesis by simp
qed

lemma loop_keeps_dtypes:
  assumes "training_loop grad ds b n k rem i s = Inr s'"
  shows "map sdtype (rs_store s') = map sdtype (rs_store s)"
  using assms
proof (induction rem arbitrary: i s)
  case 0
  then show ?case by simp
next
  case (Suc rem)
  from Suc.prems obtain inputs targets g' store' where
    st: "get_train_sample ds b (rs_gen s) = Inr ((inputs, targets), g')"
        "train grad (rs_store s) inputs targets = Inr store'"
    by (auto split: sum.splits prod.splits if_splits)
  from Suc.prems st obtain u where
    u: "training_loop grad ds b n k rem (i + 1) u = Inr s'" "rs_store u = store'"
    by (auto split: sum.splits if_splits dest: evaluation_Inr)
  show ?case
    using Suc.IH [OF u(1)] u(2) train_keeps_dtypes [OF st(2)] by simp
qed

text \<open>
  Claim C9, as stated: every parameter tensor is an array of 32-bit floats, the fixed
  constants of the trivial example included. The trivial example makes \<open>W\<close> with
  \<^verbatim>\<open>numpy.asarray([0.2, 0.7])\<close>, which is an array of 64-bit floats, and the shared
  variable keeps that type.
\<close>

theorem trivial_weights_are_float64:
  "sdtype W03 = float64 \<and> sdtype W03 \<noteq> float32"
  by (simp add: W03_def theano_shared_def numpy_asarray_def)

text \<open>
  Claim C9, amended. Each of the six parameters of the network is made by \<open>init_values\<close>:
  an array of 32-bit floats whose entries are \<open>0 + 0.1 * z\<close> for standard normal deviates
  \<open>z\<close>, a Gaussian of mean zero and scale \<open>0.1\<close>; a call of \<open>train\<close> and a whole run leave
  the element type of every parameter as it is, so 32-bit. The weights of the trivial
  example are made from the constants \<open>[0.2, 0.7]\<close> as 64-bit floats, and a call of \<open>f\<close>
  leaves their type as it is.
\<close>

theorem parameter_dtypes:
  "list_all (\<lambda>p. sdtype p = float32) (params z)
   \<and> map name (params z) = [''W1'', ''B1'', ''W2'', ''B2'', ''W3'', ''B3'']
   \<and> fst (init_values shape z) =
        \<lparr>dtype = float32,
         data = map (\<lambda>i. map (\<lambda>j. 0 + 1 / 10 * z !! (i * snd shape + j)) [0..<snd shape])
                  [0..<fst shape]\<rparr>
   \<and> (train grad store x target = Inr store' \<longrightarrow> map sdtype store' = map sdtype store)
   \<and> (run04 grad ds b n k store g = Inr s \<longrightarrow> map sdtype (rs_store s) = map sdtype store)
   \<and> (main04 grad data_train data_test z g = Inr s
        \<longrightarrow> list_all (\<lambda>p. sdtype p = float32) (rs_store s))
   \<and> sdtype W03 = float64 \<and> svalue W03 = [2 / 10, 7 / 10]
   \<and> (f03 x3 t3 W = Inr (r, W') \<longrightarrow> sdtype W' = sdtype W)"
proof -
  have p: "list_all (\<lambda>p. sdtype p = float32) (params z)"
    using make_params_float32 by (simp add: params_def)
  have nm: "map name (params z) = [''W1'', ''B1'', ''W2'', ''B2'', ''W3'', ''B3'']"
    using make_params_float32 [of param_specs z] by (simp add: params_def param_specs_def)
  have iv: "fst (init_values shape z) =
        \<lparr>dtype = float32,
         data = map (\<lambda>i. map (\<lambda>j. 0 + 1 / 10 * z !! (i * snd shape + j)) [0..<snd shape])
                  [0..<fst shape]\<rparr>"
    by (simp add: init_values_def np_random_normal_def astype_def)
  have tr: "train grad store x target = Inr store' \<longrightarrow> map sdtype store' = map sdtype store"
    using train_keeps_dtypes by blast
  have run: "run04 grad ds b n k store g = Inr s \<longrightarrow> map sdtype (rs_store s) = map sdtype store"
    using loop_keeps_dtypes by (fastforce simp: run04_def)
  have main: "main04 grad data_train data_test z g = Inr s
        \<longrightarrow> list_all (\<lambda>p. sdtype p = float32) (rs_store s)"
  proof
    assume m: "main04 grad data_train data_test z g = Inr s"
    then obtain ds where "run04 grad ds BATCH_SIZE NUM_UPDATES04 EVAL_STEP (params z) g = Inr s"
      by (auto simp: main04_def split: sum.splits)
    then have "map sdtype (rs_store s) = map sdtype (params z)"
      using loop_keeps_dtypes by (fastforce simp: run04_def)
    moreover have "list_all (\<lambda>t. t = float32) (map sdtype (params z))"
      using p by (simp add: list_all_iff)
    ultimately have "list_all (\<lambda>t. t = float32) (map sdtype (rs_store s))" by simp
    then show "list_all (\<lambda>p. sdtype p = float32) (rs_store s)" by (simp add: list_all_iff)
  qed
  have w: "sdtype W03 = float64 \<and> svalue W03 = [2 / 10, 7 / 10]"
    by (simp add: W03_def theano_shared_def numpy_asarray_def)
  have f: "f03 x3 t3 W = Inr (r, W') \<longrightarrow> sdtype W' = sdtype W"
    by (auto simp: f03_def split: if_splits)
  show ?thesis using p nm iv tr run main w f by blast
qed

theorem parameter_dtypes_witness:
  "train (\<lambda>c ps x t. ps)
     [\<lparr>name = ''W1'', sdtype = float32, svalue = [[1]]\<rparr>,
      \<lparr>name = ''B1'', sdtype = float32, svalue = [[2]]\<rparr>,
      \<lparr>name = ''W2'', sdtype = float32, svalue = [[3]]\<rparr>,
      \<lparr>name = ''B2'', sdtype = float32, svalue = [[4]]\<rparr>,
      \<lparr>name = ''W3'', sdtype = float32, svalue = [[5]]\<rparr>,
      \<lparr>name = ''B3'', sdtype = float32, svalue = [[6]]\<rparr>] [[1]] [0]
   = Inr
     [\<lparr>name = ''W1'', sdtype = float32, svalue = [[99 / 100]]\<rparr>,
      \<lparr>name = ''B1'', sdtype = float32, svalue = [[198 / 100]]\<rparr>,
      \<lparr>name = ''W2'', sdtype = float32, svalue = [[297 / 100]]\<rparr>,
      \<lparr>name = ''B2'', sdtype = float32, svalue = [[396 / 100]]\<rparr>,
      \<lparr>name = ''W3'', sdtype = float32, svalue = [[495 / 100]]\<rparr>,
      \<lparr>name = ''B3'', sdtype = float32, svalue = [[594 / 100]]\<rparr>]
   \<and> map sdtype
       [\<lparr>name = ''W1'', sdtype = float32, svalue = [[99 / 100 :: real]]\<rparr>,
        \<lparr>name = ''B1'', sdtype = float32, svalue = [[198 / 100]]\<rparr>,
        \<lparr>name = ''W2'', sdtype = float32, svalue = [[297 / 100]]\<rparr>,
        \<lparr>name = ''B2'', sdtype = float32, svalue = [[396 / 100]]\<rparr>,
        \<lparr>name = ''W3'', sdtype = float32, svalue = [[495 / 100]]\<rparr>,
        \<lparr>name = ''B3'', sdtype = float32, svalue = [[594 / 100]]\<rparr>]
     = [float32, float32, float32, float32, float32, float32]
   \<and> f03 [1, 1 / 2] 20 W03
       = Inr ((11 / 20, [2 / 10, 7 / 10]), W03\<lparr>svalue := [2354 / 100, 1237 / 100]\<rparr>)
   \<and> sdtype (W03\<lparr>svalue := [2354 / 100, 1237 / 100]\<rparr>) = float64"
  using parameter_dtypes [where grad = "\<lambda>c ps x t. ps" and x = "[[1]]" and target = "[0]"
      and ?x3.0 = "[1, 1 / 2]" and ?t3.0 = 20 and W = W03]
  by (simp add: tiny_train f03_def W03_def theano_shared_def numpy_asarray_def
      y03_def W_updated03_def gradients03_def LEARNING_RATE03_def)

end
